theory Spec2Isabelle
  imports Complex_Main "HOL-Library.Char_ord" "HOL-Library.List_Lexorder" "HOL-Library.Multiset"
begin

section \<open>Permission engine (src/permission.py, src/models.py)\<close>

text \<open>
  \<^verbatim>\<open>PermissionAction\<close> and \<^verbatim>\<open>PermissionRule\<close> of models.py. Python strings are modelled as
  \<open>string\<close> (lists of 8-bit characters).
\<close>

datatype PermissionAction = ALLOW | DENY | ASK

record PermissionRule =
  permission :: string
  pattern :: string
  action :: PermissionAction

subsection \<open>The library matcher \<^verbatim>\<open>fnmatch.fnmatch\<close>\<close>

text \<open>
  \<^verbatim>\<open>fnmatch.fnmatch\<close> belongs to the Python standard library, not to this repository.
  The functions of the permission engine therefore take the matcher as their first
  argument \<open>fn\<close> (\<open>fn name pat\<close> stands for \<^verbatim>\<open>fnmatch.fnmatch(name, pat)\<close>), and general
  theorems hold for every matcher. For evaluation on concrete inputs the theory also
  contains \<open>fnmatch\<close>, a model of the library function on a POSIX system (where
  \<^verbatim>\<open>os.path.normcase\<close> is the identity), following \<^verbatim>\<open>fnmatch.translate\<close>:
  \<^verbatim>\<open>*\<close> matches any string, \<^verbatim>\<open>?\<close> any single character, \<^verbatim>\<open>[seq]\<close> any character of
  \<^verbatim>\<open>seq\<close>, \<^verbatim>\<open>[!seq]\<close> any character not in \<^verbatim>\<open>seq\<close>; a \<^verbatim>\<open>]\<close> directly after \<^verbatim>\<open>[\<close> or
  \<^verbatim>\<open>[!\<close> is a member of the set; a \<^verbatim>\<open>[\<close> with no closing \<^verbatim>\<open>]\<close> is a literal character;
  \<^verbatim>\<open>a-b\<close> inside a set is a range, empty when \<^verbatim>\<open>a > b\<close>; every other character
  matches itself.
\<close>

fun until_close :: "string \<Rightarrow> (string \<times> string) option" where
  "until_close [] = None"
| "until_close (c # cs) =
     (if c = CHR '']'' then Some ([], cs)
      else (case until_close cs of None \<Rightarrow> None | Some (a, b) \<Rightarrow> Some (c # a, b)))"

text \<open>
  \<open>bracket s\<close> is applied to the pattern text after a \<^verbatim>\<open>[\<close>: it returns the set's text
  (\<^verbatim>\<open>stuff = pat[i:j]\<close>) and the rest of the pattern after the closing \<^verbatim>\<open>]\<close>, or \<open>None\<close>
  when there is no closing bracket (\<^verbatim>\<open>j >= n\<close>).
\<close>

definition bracket :: "string \<Rightarrow> (string \<times> string) option" where
  "bracket s =
     (let (neg, s1) = (case s of [] \<Rightarrow> ([], s)
                        | c # cs \<Rightarrow> if c = CHR ''!'' then ([c], cs) else ([], s));
          (fc, s2) = (case s1 of [] \<Rightarrow> ([], s1)
                        | c # cs \<Rightarrow> if c = CHR '']'' then ([c], cs) else ([], s1))
      in (case until_close s2 of None \<Rightarrow> None
          | Some (a, b) \<Rightarrow> Some (neg @ fc @ a, b)))"

fun set_items :: "string \<Rightarrow> (char \<times> char) list" where
  "set_items (a # m # b # rest) =
     (if m = CHR ''-'' then (a, b) # set_items rest else (a, a) # set_items (m # b # rest))"
| "set_items (a # rest) = (a, a) # set_items rest"
| "set_items [] = []"

definition in_items :: "(char \<times> char) list \<Rightarrow> char \<Rightarrow> bool" where
  "in_items items c = list_ex (\<lambda>(lo, hi). of_char lo \<le> (of_char c :: nat) \<and> (of_char c :: nat) \<le> of_char hi) items"

definition in_set :: "string \<Rightarrow> char \<Rightarrow> bool" where
  "in_set stuff c =
     (case stuff of
        [] \<Rightarrow> False
      | x # xs \<Rightarrow> if x = CHR ''!'' then \<not> in_items (set_items xs) c
                  else in_items (set_items stuff) c)"

lemma until_close_shorter: "until_close s = Some (a, b) \<Longrightarrow> length b < length s"
  by (induction s arbitrary: a b) (auto split: if_splits option.splits)

lemma bracket_shorter: "bracket s = Some (a, b) \<Longrightarrow> length b < Suc (length s)"
  by (auto simp: bracket_def Let_def split: list.splits if_splits option.splits
           dest!: until_close_shorter)

function fnmatch_from :: "string \<Rightarrow> string \<Rightarrow> bool" where
  "fnmatch_from [] name = (name = [])"
| "fnmatch_from (p # ps) name =
     (if p = CHR ''*'' then
        (fnmatch_from ps name \<or>
         (case name of [] \<Rightarrow> False | c # cs \<Rightarrow> fnmatch_from (p # ps) cs))
      else if p = CHR ''?'' then
        (case name of [] \<Rightarrow> False | c # cs \<Rightarrow> fnmatch_from ps cs)
      else if p = CHR ''['' then
        (case bracket ps of
           None \<Rightarrow> (case name of [] \<Rightarrow> False | c # cs \<Rightarrow> c = p \<and> fnmatch_from ps cs)
         | Some (stuff, rest) \<Rightarrow>
             (case name of [] \<Rightarrow> False | c # cs \<Rightarrow> in_set stuff c \<and> fnmatch_from rest cs))
      else
        (case name of [] \<Rightarrow> False | c # cs \<Rightarrow> c = p \<and> fnmatch_from ps cs))"
  by pat_completeness auto
termination
  by (relation "measures [\<lambda>(pat, name). length pat, \<lambda>(pat, name). length name]")
     (auto dest: bracket_shorter)

definition fnmatch :: "string \<Rightarrow> string \<Rightarrow> bool" where
  "fnmatch name pat = fnmatch_from pat name"

subsection \<open>PermissionManager\<close>

text \<open>\<^verbatim>\<open>PermissionManager._match(value, pattern)\<close>.\<close>

definition pm_match :: "(string \<Rightarrow> string \<Rightarrow> bool) \<Rightarrow> string \<Rightarrow> string \<Rightarrow> bool" where
  "pm_match fn v pat = (if pat = ''*'' then True else fn v pat)"

text \<open>
  The test of the \<^verbatim>\<open>if\<close> inside the loop of \<^verbatim>\<open>evaluate\<close>, and the loop itself over the
  already reversed list: the first rule that passes the test returns its action, and
  the end of the list returns \<^verbatim>\<open>PermissionAction.ASK\<close>.
\<close>

definition rule_matches :: "(string \<Rightarrow> string \<Rightarrow> bool) \<Rightarrow> string \<Rightarrow> string \<Rightarrow> PermissionRule \<Rightarrow> bool" where
  "rule_matches fn perm pat r \<longleftrightarrow> pm_match fn perm (permission r) \<and> pm_match fn pat (pattern r)"

fun evaluate_loop :: "(string \<Rightarrow> string \<Rightarrow> bool) \<Rightarrow> PermissionRule list \<Rightarrow> string \<Rightarrow> string \<Rightarrow> PermissionAction" where
  "evaluate_loop fn [] perm pat = ASK"
| "evaluate_loop fn (r # rs) perm pat =
     (if pm_match fn perm (permission r) \<and> pm_match fn pat (pattern r) then action r
      else evaluate_loop fn rs perm pat)"

text \<open>
  The state of a \<^verbatim>\<open>PermissionManager\<close>: the configured rules, the rules approved at
  run time, and its \<^verbatim>\<open>ask_callback\<close>, which in this repository is always
  \<^verbatim>\<open>_default_ask\<close>. The user at the terminal is given by \<open>replies\<close>, the values that the
  successive calls of \<^verbatim>\<open>Prompt.ask\<close> in \<^verbatim>\<open>_default_ask\<close> return (the library returns
  one of its \<^verbatim>\<open>choices\<close>, here \<^verbatim>\<open>y\<close>, \<^verbatim>\<open>n\<close> or \<^verbatim>\<open>always\<close>); at the end of the input
  \<^verbatim>\<open>Prompt.ask\<close> raises \<^verbatim>\<open>EOFError\<close>. \<open>asked\<close> records every invocation of the callback
  with its arguments; it stands for the text printed on the console.
\<close>

record PermissionManager =
  rules :: "PermissionRule list"
  approved :: "PermissionRule list"
  replies :: "string list"
  asked :: "(string \<times> string) list"

text \<open>The exceptions that the model distinguishes; the argument is \<^verbatim>\<open>str(e)\<close>.\<close>

datatype exn =
    PermissionDeniedError string
  | PermissionRejectedError string
  | CancelledError
  | OtherException string

text \<open>\<^verbatim>\<open>PermissionManager.evaluate(permission, pattern)\<close>.\<close>

definition evaluate :: "(string \<Rightarrow> string \<Rightarrow> bool) \<Rightarrow> PermissionManager \<Rightarrow> string \<Rightarrow> string \<Rightarrow> PermissionAction" where
  "evaluate fn pm perm pat = evaluate_loop fn (rev (rules pm @ approved pm)) perm pat"

text \<open>\<^verbatim>\<open>PermissionManager._default_ask(permission, pattern, metadata)\<close>.\<close>

definition default_ask :: "PermissionManager \<Rightarrow> string \<Rightarrow> string \<Rightarrow> (exn + bool) \<times> PermissionManager" where
  "default_ask pm perm pat =
     (let pm1 = pm\<lparr>asked := asked pm @ [(perm, pat)]\<rparr> in
      case replies pm1 of
        [] \<Rightarrow> (Inl (OtherException ''EOF when reading a line''), pm1)
      | response # rest \<Rightarrow>
          (let pm2 = pm1\<lparr>replies := rest\<rparr> in
           if response = ''always'' then
             (Inr True,
              pm2\<lparr>approved := approved pm2 @
                     [\<lparr>permission = perm, pattern = pat, action = ALLOW\<rparr>]\<rparr>)
           else (Inr (response = ''y''), pm2)))"

text \<open>
  \<^verbatim>\<open>PermissionManager.check(permission, patterns, metadata)\<close>: \<open>None\<close> is the normal
  return, \<open>Some e\<close> the exception that leaves the method.
\<close>

fun check :: "(string \<Rightarrow> string \<Rightarrow> bool) \<Rightarrow> PermissionManager \<Rightarrow> string \<Rightarrow> string list \<Rightarrow> exn option \<times> PermissionManager" where
  "check fn pm perm [] = (None, pm)"
| "check fn pm perm (pat # pats) =
     (case evaluate fn pm perm pat of
        DENY \<Rightarrow>
          (Some (PermissionDeniedError
             (''Permission '' @ [CHR 0x27] @ perm @ [CHR 0x27] @ '' denied for pattern '' @
              [CHR 0x27] @ pat @ [CHR 0x27])), pm)
      | ASK \<Rightarrow>
          (case default_ask pm perm pat of
             (Inl e, pm') \<Rightarrow> (Some e, pm')
           | (Inr allowed, pm') \<Rightarrow>
               if \<not> allowed then
                 (Some (PermissionRejectedError
                    (''User rejected permission '' @ [CHR 0x27] @ perm @ [CHR 0x27] @
                     '' for '' @ [CHR 0x27] @ pat @ [CHR 0x27])), pm')
               else check fn pm' perm pats)
      | ALLOW \<Rightarrow> check fn pm perm pats)"

text \<open>\<^verbatim>\<open>DEFAULT_RULES\<close> and \<^verbatim>\<open>create_default_permission_manager\<close>, for a given user.\<close>

definition DEFAULT_RULES :: "PermissionRule list" where
  "DEFAULT_RULES =
     [\<lparr>permission = ''*'', pattern = ''*'', action = ALLOW\<rparr>,
      \<lparr>permission = ''bash'', pattern = ''rm *'', action = ASK\<rparr>,
      \<lparr>permission = ''bash'', pattern = ''sudo *'', action = ASK\<rparr>,
      \<lparr>permission = ''edit'', pattern = ''*.env'', action = ASK\<rparr>,
      \<lparr>permission = ''edit'', pattern = ''*.env.*'', action = ASK\<rparr>,
      \<lparr>permission = ''doom_loop'', pattern = ''*'', action = ASK\<rparr>]"

definition create_default_permission_manager :: "string list \<Rightarrow> PermissionManager" where
  "create_default_permission_manager user =
     \<lparr>rules = DEFAULT_RULES, approved = [], replies = user, asked = []\<rparr>"

section \<open>Stream chunks and the provider's retry loop (src/llm/base.py, src/llm/openai.py)\<close>

text \<open>
  \<^verbatim>\<open>LLMConfig\<close>. Python floats are modelled as real numbers (no rounding), Python integers
  as \<open>int\<close>; the attempt counter of the retry loop is a natural number.
\<close>

record LLMConfig =
  timeout :: real
  connect_timeout :: real
  max_retries :: int
  retry_delay :: real

definition DEFAULT_LLM_CONFIG :: LLMConfig where
  "DEFAULT_LLM_CONFIG = \<lparr>timeout = 120, connect_timeout = 30, max_retries = 3, retry_delay = 1\<rparr>"

text \<open>
  The provider's \<^verbatim>\<open>last_error\<close>: \<^verbatim>\<open>None\<close>, the connect-timeout text (which embeds
  \<^verbatim>\<open>connect_timeout\<close>), or \<^verbatim>\<open>str(e)\<close>. The texts of the error chunks contain characters
  outside ASCII and formatted floats; \<open>error_text\<close> keeps the values that each text is
  made from, in the order of the \<^verbatim>\<open>yield\<close> statements of \<^verbatim>\<open>OpenAIProvider.stream\<close>, and
  \<open>PlainText\<close> is the text of any other producer.
\<close>

datatype last_error = NoError | ConnectTimeout real | ErrorStr string

datatype error_text =
    IdleTimeoutText
  | ConnectRetryText last_error nat real
  | RetryText string string nat real
  | FatalText string string
  | ExhaustedText int last_error
  | PlainText string

text \<open>
  \<^verbatim>\<open>StreamChunk\<close>, one constructor for each value of \<^verbatim>\<open>type\<close> with the fields that are set
  for it: \<^verbatim>\<open>content\<close>; \<^verbatim>\<open>tool_call_id\<close> and \<^verbatim>\<open>tool_name\<close>; \<^verbatim>\<open>tool_call_id\<close> and
  \<^verbatim>\<open>tool_args_delta\<close>; \<^verbatim>\<open>finish_reason\<close> and \<^verbatim>\<open>usage\<close> (input, output and total tokens);
  \<^verbatim>\<open>error\<close>.
\<close>

datatype StreamChunk =
    TextChunk string
  | ToolCallChunk "string option" "string option"
  | ToolCallDeltaChunk "string option" "string option"
  | FinishChunk string "(int \<times> int \<times> int) option"
  | ErrorChunk error_text

text \<open>
  What the API client delivers: the chunks of \<^verbatim>\<open>chat.completions\<close>, each with the value of
  \<^verbatim>\<open>asyncio.get_event_loop().time()\<close> at which the loop body receives it (\<open>arrival\<close>).
  Field names carry a prefix; they are \<^verbatim>\<open>function.name\<close>, \<^verbatim>\<open>function.arguments\<close>, \<^verbatim>\<open>tc.id\<close>,
  \<^verbatim>\<open>tc.function\<close>, \<^verbatim>\<open>delta.content\<close>, \<^verbatim>\<open>delta.tool_calls\<close>, \<^verbatim>\<open>choice.delta\<close>,
  \<^verbatim>\<open>choice.finish_reason\<close>, \<^verbatim>\<open>chunk.choices\<close> and \<^verbatim>\<open>chunk.usage\<close> (prompt, completion and
  total tokens).
\<close>

record FunctionDelta =
  fd_name :: "string option"
  fd_arguments :: "string option"

record ToolCallDelta =
  tcd_id :: "string option"
  tcd_function :: "FunctionDelta option"

record Delta =
  delta_content :: "string option"
  delta_tool_calls :: "ToolCallDelta list option"

record Choice =
  choice_delta :: "Delta option"
  choice_finish_reason :: "string option"

record Chunk =
  arrival :: real
  chunk_choices :: "Choice list"
  chunk_usage :: "(int \<times> int \<times> int) option"

text \<open>
  One call of the API inside the \<^verbatim>\<open>try\<close>: either \<^verbatim>\<open>wait_for(create(...))\<close> raises, or it
  returns a stream at loop time \<open>t0\<close> whose chunks arrive one by one and whose iteration
  then either ends or raises. The exceptions are \<^verbatim>\<open>asyncio.TimeoutError\<close>,
  \<^verbatim>\<open>asyncio.CancelledError\<close>, and any other exception with \<^verbatim>\<open>type(e).__name__\<close> and
  \<^verbatim>\<open>str(e)\<close>.
\<close>

datatype failure = TimeoutError | Cancelled | Failure string string

datatype attempt = ConnectFails failure | Connected real "Chunk list" "failure option"

text \<open>What the generator does, in order: it yields a chunk or it sleeps.\<close>

datatype event = Yield StreamChunk | Sleep real

text \<open>
  Python truthiness of an optional string; \<^verbatim>\<open>str.lower\<close> on the ASCII letters, the only
  ones that can produce the ASCII keywords searched for (a capital letter \<^verbatim>\<open>A\<close> to \<^verbatim>\<open>Z\<close>
  has code 65 to 90, and adding 32 sets bit 5 of the code); and \<^verbatim>\<open>key in s\<close>.
\<close>

definition truthy :: "string option \<Rightarrow> bool" where
  "truthy s = (case s of None \<Rightarrow> False | Some t \<Rightarrow> t \<noteq> [])"

definition lower_char :: "char \<Rightarrow> char" where
  "lower_char c =
     (if 65 \<le> (of_char c :: nat) \<and> (of_char c :: nat) \<le> 90
      then Char (digit0 c) (digit1 c) (digit2 c) (digit3 c) (digit4 c) True (digit6 c) (digit7 c)
      else c)"

definition str_lower :: "string \<Rightarrow> string" where
  "str_lower s = map lower_char s"

fun starts_with :: "string \<Rightarrow> string \<Rightarrow> bool" where
  "starts_with s [] = True"
| "starts_with [] (k # ks) = False"
| "starts_with (c # cs) (k # ks) = (c = k \<and> starts_with cs ks)"

fun contains :: "string \<Rightarrow> string \<Rightarrow> bool" where
  "contains key [] = (key = [])"
| "contains key (c # cs) = (starts_with (c # cs) key \<or> contains key cs)"

text \<open>
  A Python \<^verbatim>\<open>dict\<close> with its insertion order, as an association list with distinct keys:
  assignment to a present key keeps its position.
\<close>

fun dict_set :: "('k \<times> 'v) list \<Rightarrow> 'k \<Rightarrow> 'v \<Rightarrow> ('k \<times> 'v) list" where
  "dict_set [] k v = [(k, v)]"
| "dict_set ((k', v') # kvs) k v =
     (if k' = k then (k, v) # kvs else (k', v') # dict_set kvs k v)"

text \<open>
  The body of \<^verbatim>\<open>for tc in delta.tool_calls\<close>. \<open>cur\<close> is \<^verbatim>\<open>current_tool_calls\<close>, from the id
  to the name and the accumulated arguments. Python reads the first line as
  \<^verbatim>\<open>(tc.id or list(keys)[-1]) if current_tool_calls else None\<close>.
\<close>

definition handle_tool_call :: "(string \<times> string option \<times> string) list \<Rightarrow> ToolCallDelta \<Rightarrow> StreamChunk list \<times> (string \<times> string option \<times> string) list" where
  "handle_tool_call cur tc =
     (let tc_id = (if cur \<noteq> [] then (if truthy (tcd_id tc) then tcd_id tc else Some (fst (last cur)))
                   else None);
          registered =
            (case tcd_id tc of
               None \<Rightarrow> ([], cur)
             | Some i \<Rightarrow>
                 if i \<noteq> [] then
                   ([ToolCallChunk (Some i) (case tcd_function tc of None \<Rightarrow> None | Some f \<Rightarrow> fd_name f)],
                    dict_set cur i
                      ((case tcd_function tc of None \<Rightarrow> Some [] | Some f \<Rightarrow> fd_name f), []))
                 else ([], cur));
          cur1 = snd registered
      in case tcd_function tc of
           None \<Rightarrow> registered
         | Some f \<Rightarrow>
             (case fd_arguments f of
                None \<Rightarrow> registered
              | Some a \<Rightarrow>
                  if a \<noteq> [] then
                    (fst registered @ [ToolCallDeltaChunk tc_id (Some a)],
                     (case tc_id of
                        None \<Rightarrow> cur1
                      | Some i \<Rightarrow>
                          (case map_of cur1 i of
                             None \<Rightarrow> cur1
                           | Some (n, args) \<Rightarrow>
                               if i \<noteq> [] then dict_set cur1 i (n, args @ a) else cur1)))
                  else registered))"

fun handle_tool_calls :: "(string \<times> string option \<times> string) list \<Rightarrow> ToolCallDelta list \<Rightarrow> StreamChunk list \<times> (string \<times> string option \<times> string) list" where
  "handle_tool_calls cur [] = ([], cur)"
| "handle_tool_calls cur (tc # tcs) =
     (case handle_tool_call cur tc of
        (out1, cur1) \<Rightarrow>
          (case handle_tool_calls cur1 tcs of (out2, cur2) \<Rightarrow> (out1 @ out2, cur2)))"

text \<open>
  The loop \<^verbatim>\<open>async for chunk in stream\<close>. \<open>Returned\<close>: a \<^verbatim>\<open>return\<close> statement was executed,
  which ends the generator. \<open>Exhausted\<close>: the chunks ran out and the loop ended. The
  \<^verbatim>\<open>json.loads\<close> of the accumulated arguments before the finish chunk changes a local
  value that is never read again and is left out.
\<close>

datatype consumed = Returned | Exhausted "(string \<times> string option \<times> string) list"

fun consume :: "real \<Rightarrow> (string \<times> string option \<times> string) list \<Rightarrow> Chunk list \<Rightarrow> event list \<times> consumed" where
  "consume last_chunk_time cur [] = ([], Exhausted cur)"
| "consume last_chunk_time cur (chunk # rest) =
     (if arrival chunk - last_chunk_time > 60 then
        ([Yield (ErrorChunk IdleTimeoutText)], Returned)
      else
        (case chunk_choices chunk of
           [] \<Rightarrow> consume (arrival chunk) cur rest
         | choice # _ \<Rightarrow>
             (case choice_delta choice of
                None \<Rightarrow> consume (arrival chunk) cur rest
              | Some d \<Rightarrow>
                  (case (case delta_tool_calls d of
                           None \<Rightarrow> ([], cur)
                         | Some tcs \<Rightarrow> handle_tool_calls cur tcs) of
                     (tool_chunks, cur1) \<Rightarrow>
                       (let text_chunks =
                              (case delta_content d of
                                 None \<Rightarrow> []
                               | Some t \<Rightarrow> if t \<noteq> [] then [TextChunk t] else [])
                        in case choice_finish_reason choice of
                             None \<Rightarrow>
                               (case consume (arrival chunk) cur1 rest of
                                  (evs, r) \<Rightarrow> (map Yield (text_chunks @ tool_chunks) @ evs, r))
                           | Some reason \<Rightarrow>
                               if reason \<noteq> [] then
                                 (map Yield (text_chunks @ tool_chunks @
                                             [FinishChunk reason (chunk_usage chunk)]),
                                  Returned)
                               else
                                 (case consume (arrival chunk) cur1 rest of
                                    (evs, r) \<Rightarrow>
                                      (map Yield (text_chunks @ tool_chunks) @ evs, r)))))))"

text \<open>
  The \<^verbatim>\<open>try\<close> body of one attempt: it returns, it raises, or it falls through to the next
  iteration of \<^verbatim>\<open>for attempt in range(max_retries + 1)\<close>.
\<close>

datatype body_result = BodyReturned | BodyRaised failure | BodyFellThrough

definition try_body :: "attempt \<Rightarrow> event list \<times> body_result" where
  "try_body a =
     (case a of
        ConnectFails f \<Rightarrow> ([], BodyRaised f)
      | Connected t0 chunks fail \<Rightarrow>
          (case consume t0 [] chunks of
             (evs, Returned) \<Rightarrow> (evs, BodyReturned)
           | (evs, Exhausted cur) \<Rightarrow>
               (case fail of None \<Rightarrow> (evs, BodyFellThrough) | Some f \<Rightarrow> (evs, BodyRaised f))))"

text \<open>
  The three \<^verbatim>\<open>except\<close> clauses. \<open>Continue\<close>: the loop goes on with the next attempt and the
  new \<^verbatim>\<open>last_error\<close> (after \<^verbatim>\<open>continue\<close>, or at the end of the timeout clause when the
  attempts are used up). \<open>Stop\<close>: the generator returns, or re-raises the cancellation.
\<close>

datatype handler = Continue "event list" last_error | Stop "event list" "exn option"

definition retryable_text :: "string \<Rightarrow> bool" where
  "retryable_text error_lower =
     list_ex (\<lambda>keyword. contains keyword error_lower)
       [''timeout'', ''connection'', ''network'', ''rate'', ''429'',
        ''500'', ''502'', ''503'', ''504'', ''overloaded'']"

definition rate_limit_text :: "string \<Rightarrow> bool" where
  "rate_limit_text txt \<longleftrightarrow> contains ''rate'' (str_lower txt) \<or> contains ''429'' txt"

definition except_clauses :: "LLMConfig \<Rightarrow> nat \<Rightarrow> failure \<Rightarrow> handler" where
  "except_clauses cfg n f =
     (case f of
        TimeoutError \<Rightarrow>
          (let le = ConnectTimeout (connect_timeout cfg) in
           if int n < max_retries cfg then
             (let delay = retry_delay cfg * 2 ^ n
              in Continue [Yield (ErrorChunk (ConnectRetryText le (n + 1) delay)), Sleep delay] le)
           else Continue [] le)
      | Cancelled \<Rightarrow> Stop [] (Some CancelledError)
      | Failure tname txt \<Rightarrow>
          (if retryable_text (str_lower txt) \<and> int n < max_retries cfg then
             (let delay = retry_delay cfg * 2 ^ n;
                  delay = (if rate_limit_text txt then max delay 10 else delay)
              in Continue [Yield (ErrorChunk (RetryText tname (take 100 txt) (n + 1) delay)),
                           Sleep delay] (ErrorStr txt))
           else Stop [Yield (ErrorChunk (FatalText tname txt)), Yield (FinishChunk ''error'' None)]
                  None))"

text \<open>
  \<^verbatim>\<open>OpenAIProvider.stream\<close> from attempt \<open>n\<close> on: the events of the generator and the
  exception that ends it, if any. \<open>api n\<close> is what the \<open>n\<close>-th call of the API does.
\<close>

function stream_from :: "LLMConfig \<Rightarrow> (nat \<Rightarrow> attempt) \<Rightarrow> nat \<Rightarrow> last_error \<Rightarrow> event list \<times> exn option" where
  "stream_from cfg api n le =
     (if int n < max_retries cfg + 1 then
        (case try_body (api n) of
           (evs, BodyReturned) \<Rightarrow> (evs, None)
         | (evs, BodyFellThrough) \<Rightarrow>
             (case stream_from cfg api (n + 1) le of (evs', r) \<Rightarrow> (evs @ evs', r))
         | (evs, BodyRaised f) \<Rightarrow>
             (case except_clauses cfg n f of
                Stop evs1 r \<Rightarrow> (evs @ evs1, r)
              | Continue evs1 le' \<Rightarrow>
                  (case stream_from cfg api (n + 1) le' of
                     (evs', r) \<Rightarrow> (evs @ evs1 @ evs', r))))
      else
        ([Yield (ErrorChunk (ExhaustedText (max_retries cfg) le)),
          Yield (FinishChunk ''error'' None)], None))"
  by pat_completeness auto
termination
  by (relation "measure (\<lambda>(cfg, api, n, le). nat (max_retries cfg + 1 - int n))") auto

declare stream_from.simps [simp del]

definition stream :: "LLMConfig \<Rightarrow> (nat \<Rightarrow> attempt) \<Rightarrow> event list \<times> exn option" where
  "stream cfg api = stream_from cfg api 0 NoError"

subsection \<open>The delay of \<^verbatim>\<open>retry_async\<close> (src/errors.py)\<close>

text \<open>
  \<^verbatim>\<open>RetryConfig\<close> without its tuple of exception classes, and the delay that \<^verbatim>\<open>retry_async\<close>
  computes for a retryable exception on attempt \<open>n\<close>; \<open>retry_after\<close> is \<^verbatim>\<open>e.retry_after\<close>
  of an \<^verbatim>\<open>LLMRateLimitError\<close> and \<open>None\<close> for every other exception. No provider calls
  \<^verbatim>\<open>retry_async\<close>.
\<close>

record RetryConfig =
  rc_max_retries :: int
  initial_delay :: real
  max_delay :: real
  exponential_base :: real

definition DEFAULT_RETRY_CONFIG :: RetryConfig where
  "DEFAULT_RETRY_CONFIG =
     \<lparr>rc_max_retries = 3, initial_delay = 1, max_delay = 60, exponential_base = 2\<rparr>"

definition retry_async_delay :: "RetryConfig \<Rightarrow> nat \<Rightarrow> real option \<Rightarrow> real" where
  "retry_async_delay config n retry_after =
     (case retry_after of
        None \<Rightarrow> min (initial_delay config * exponential_base config ^ n) (max_delay config)
      | Some d \<Rightarrow>
          if d \<noteq> 0 then d
          else min (initial_delay config * exponential_base config ^ n) (max_delay config))"

text \<open>Two API behaviours used as concrete inputs below.\<close>

definition silent_then_fine :: "nat \<Rightarrow> attempt" where
  "silent_then_fine n =
     (if n = 0 then
        Connected 0
          [\<lparr>arrival = 1,
             chunk_choices = [\<lparr>choice_delta = Some \<lparr>delta_content = Some ''Hel'', delta_tool_calls = None\<rparr>,
                               choice_finish_reason = None\<rparr>],
             chunk_usage = None\<rparr>,
           \<lparr>arrival = 62,
             chunk_choices = [\<lparr>choice_delta = Some \<lparr>delta_content = Some ''lo'', delta_tool_calls = None\<rparr>,
                               choice_finish_reason = Some ''stop''\<rparr>],
             chunk_usage = None\<rparr>] None
      else
        Connected 100
          [\<lparr>arrival = 101,
             chunk_choices = [\<lparr>choice_delta = Some \<lparr>delta_content = Some ''Hello'', delta_tool_calls = None\<rparr>,
                               choice_finish_reason = Some ''stop''\<rparr>],
             chunk_usage = None\<rparr>] None)"

definition always_reset :: "nat \<Rightarrow> attempt" where
  "always_reset n = ConnectFails (Failure ''APIConnectionError'' ''Connection error.'')"

definition always_rate_limited :: "nat \<Rightarrow> attempt" where
  "always_rate_limited n =
     ConnectFails (Failure ''RateLimitError'' ''Error code: 429 - Rate limit reached'')"

definition late_first_chunk :: "nat \<Rightarrow> attempt" where
  "late_first_chunk n =
     Connected 5
       [\<lparr>arrival = 70,
          chunk_choices = [\<lparr>choice_delta = Some \<lparr>delta_content = Some ''Hi'', delta_tool_calls = None\<rparr>,
                            choice_finish_reason = Some ''stop''\<rparr>],
          chunk_usage = None\<rparr>] None"

text \<open>The delays of the \<^verbatim>\<open>asyncio.sleep\<close> calls of a run of the generator, in order.\<close>

fun sleeps :: "event list \<Rightarrow> real list" where
  "sleeps [] = []"
| "sleeps (Yield c # es) = sleeps es"
| "sleeps (Sleep d # es) = d # sleeps es"

section \<open>Messages and tool calls (src/models.py, src/session.py)\<close>

text \<open>
  The values of \<^verbatim>\<open>json.loads\<close> without floats: \<^verbatim>\<open>None\<close>, booleans, integers, strings, lists,
  and dicts in insertion order (association lists with distinct keys).
\<close>

datatype json =
    JNull
  | JBool bool
  | JInt int
  | JStr string
  | JArr "json list"
  | JObj "(string \<times> json) list"

text \<open>
  \<^verbatim>\<open>json.dumps(value, sort_keys=True)\<close> with the default separators and
  \<^verbatim>\<open>ensure_ascii=True\<close>: a character outside the range from space to tilde is written as
  \<^verbatim>\<open>\u00XX\<close> unless it has a short escape, and the items of a dict are written in the
  order of their keys (strings compare by character codes).
\<close>

fun show_nat :: "nat \<Rightarrow> string" where
  "show_nat n =
     (if n < 10 then [''0123456789'' ! n]
      else show_nat (n div 10) @ [''0123456789'' ! (n mod 10)])"

declare show_nat.simps [simp del]

definition show_int :: "int \<Rightarrow> string" where
  "show_int i = (if i < 0 then CHR ''-'' # show_nat (nat (- i)) else show_nat (nat i))"

definition escape_char :: "char \<Rightarrow> string" where
  "escape_char c =
     (if c = CHR 0x22 then [CHR 0x5C, CHR 0x22]
      else if c = CHR 0x5C then [CHR 0x5C, CHR 0x5C]
      else if c = CHR 0x0A then [CHR 0x5C, CHR ''n'']
      else if c = CHR 0x0D then [CHR 0x5C, CHR ''r'']
      else if c = CHR 0x09 then [CHR 0x5C, CHR ''t'']
      else if c = CHR 0x08 then [CHR 0x5C, CHR ''b'']
      else if c = CHR 0x0C then [CHR 0x5C, CHR ''f'']
      else if (of_char c :: nat) < 32 \<or> 126 < (of_char c :: nat) then
        [CHR 0x5C, CHR ''u'', CHR ''0'', CHR ''0'',
         ''0123456789abcdef'' ! ((of_char c :: nat) div 16),
         ''0123456789abcdef'' ! ((of_char c :: nat) mod 16)]
      else [c])"

definition quote :: "string \<Rightarrow> string" where
  "quote s = [CHR 0x22] @ concat (map escape_char s) @ [CHR 0x22]"

fun join :: "string \<Rightarrow> string list \<Rightarrow> string" where
  "join sep [] = []"
| "join sep [x] = x"
| "join sep (x # y # ys) = x @ sep @ join sep (y # ys)"

lemma size_sorted_item:
  "(k, v) \<in> set (sort_key fst kvs) \<Longrightarrow> size v < Suc (size_list (size_prod (\<lambda>_. 0) size) kvs)"
proof -
  assume "(k, v) \<in> set (sort_key fst kvs)"
  then have "(k, v) \<in> set kvs" by simp
  then show ?thesis by (induction kvs) auto
qed

function dumps_sorted :: "json \<Rightarrow> string" where
  "dumps_sorted JNull = ''null''"
| "dumps_sorted (JBool b) = (if b then ''true'' else ''false'')"
| "dumps_sorted (JInt i) = show_int i"
| "dumps_sorted (JStr s) = quote s"
| "dumps_sorted (JArr xs) = ''['' @ join '', '' (map dumps_sorted xs) @ '']''"
| "dumps_sorted (JObj kvs) =
     ''{'' @ join '', '' (map (\<lambda>(k, v). quote k @ '': '' @ dumps_sorted v) (sort_key fst kvs)) @ ''}''"
  by pat_completeness auto
termination
  by (relation "measure size") (auto simp: less_Suc_eq_le size_list_estimation' dest: size_sorted_item)

text \<open>
  \<^verbatim>\<open>ToolState\<close> and \<^verbatim>\<open>ToolCall\<close>. The fields \<^verbatim>\<open>id\<close>, \<^verbatim>\<open>input\<close>, \<^verbatim>\<open>state\<close>, \<^verbatim>\<open>output\<close> and \<^verbatim>\<open>error\<close>
  carry the prefix \<open>tc_\<close>; \<open>args_str\<close> is the attribute
  \<^verbatim>\<open>_args_str\<close> that \<^verbatim>\<open>_process_stream\<close> attaches to the object (\<open>None\<close>: the attribute does
  not exist). The time stamps are left out.
\<close>

datatype ToolState = PENDING | RUNNING | COMPLETED | ERROR

record ToolCall =
  tc_id :: string
  tool_name :: string
  tc_input :: json
  tc_state :: ToolState
  tc_output :: "string option"
  tc_error :: "string option"
  args_str :: "string option"

text \<open>
  The message parts (\<^verbatim>\<open>TextPart\<close> with \<^verbatim>\<open>text\<close> and \<^verbatim>\<open>synthetic\<close>), \<^verbatim>\<open>AssistantMessage\<close> with
  the fields that the loop writes (\<open>msg_error\<close> is \<^verbatim>\<open>error\<close>; \<open>tokens\<close> holds input, output
  and total), and \<^verbatim>\<open>Message\<close>: a user message is given by its parts. Identifiers, agent and
  model names, cost and time stamps are left out.
\<close>

datatype MessagePart = TextPart string bool | ToolPart ToolCall | ReasoningPart string

record AssistantMessage =
  parts :: "MessagePart list"
  finish_reason :: "string option"
  msg_error :: "string option"
  tokens :: "int \<times> int \<times> int"

datatype Message = UserMessage "MessagePart list" | AssistantMsg AssistantMessage

text \<open>\<^verbatim>\<open>add_text_part\<close>, \<^verbatim>\<open>add_tool_part\<close> and \<^verbatim>\<open>update_tool_part\<close> of session.py, as functions
  on the list of parts and on the message.\<close>

fun add_text :: "MessagePart list \<Rightarrow> string \<Rightarrow> MessagePart list" where
  "add_text [] txt = [TextPart txt False]"
| "add_text (TextPart t synthetic # ps) txt =
     (if \<not> synthetic then TextPart (t @ txt) synthetic # ps
      else TextPart t synthetic # add_text ps txt)"
| "add_text (p # ps) txt = p # add_text ps txt"

definition add_text_part :: "AssistantMessage \<Rightarrow> string \<Rightarrow> AssistantMessage" where
  "add_text_part message txt = message\<lparr>parts := add_text (parts message) txt\<rparr>"

definition add_tool_part :: "AssistantMessage \<Rightarrow> ToolCall \<Rightarrow> AssistantMessage" where
  "add_tool_part message tool_call = message\<lparr>parts := parts message @ [ToolPart tool_call]\<rparr>"

fun update_tool :: "MessagePart list \<Rightarrow> string \<Rightarrow> ToolState \<Rightarrow> string option \<Rightarrow> string option \<Rightarrow> MessagePart list" where
  "update_tool [] call_id st out err = []"
| "update_tool (ToolPart tc # ps) call_id st out err =
     (if tc_id tc = call_id then ToolPart (tc\<lparr>tc_state := st, tc_output := out, tc_error := err\<rparr>) # ps
      else ToolPart tc # update_tool ps call_id st out err)"
| "update_tool (p # ps) call_id st out err = p # update_tool ps call_id st out err"

definition update_tool_part :: "AssistantMessage \<Rightarrow> string \<Rightarrow> ToolState \<Rightarrow> string option \<Rightarrow> string option \<Rightarrow> AssistantMessage" where
  "update_tool_part message call_id st out err =
     message\<lparr>parts := update_tool (parts message) call_id st out err\<rparr>"

section \<open>Doom-loop detection (src/loop.py)\<close>

definition DOOM_LOOP_THRESHOLD :: nat where
  "DOOM_LOOP_THRESHOLD = 3"

text \<open>
  The inner loop \<^verbatim>\<open>for part in msg.parts\<close> and the outer loop
  \<^verbatim>\<open>for msg in reversed(self.session.messages)\<close> of \<^verbatim>\<open>_detect_doom_loop\<close>, each with the
  list \<^verbatim>\<open>recent_calls\<close> collected so far; the outer loop is applied to the reversed list.
\<close>

fun scan_parts :: "(string \<times> string) list \<Rightarrow> MessagePart list \<Rightarrow> (string \<times> string) list" where
  "scan_parts recent_calls [] = recent_calls"
| "scan_parts recent_calls (ToolPart tc # ps) =
     (let recent_calls' = recent_calls @ [(tool_name tc, dumps_sorted (tc_input tc))]
      in if length recent_calls' \<ge> DOOM_LOOP_THRESHOLD then recent_calls'
         else scan_parts recent_calls' ps)"
| "scan_parts recent_calls (p # ps) = scan_parts recent_calls ps"

fun scan_messages :: "(string \<times> string) list \<Rightarrow> Message list \<Rightarrow> (string \<times> string) list" where
  "scan_messages recent_calls [] = recent_calls"
| "scan_messages recent_calls (UserMessage ps # ms) = scan_messages recent_calls ms"
| "scan_messages recent_calls (AssistantMsg a # ms) =
     (let recent_calls' = scan_parts recent_calls (parts a)
      in if length recent_calls' \<ge> DOOM_LOOP_THRESHOLD then recent_calls'
         else scan_messages recent_calls' ms)"

definition detect_doom_loop :: "Message list \<Rightarrow> bool" where
  "detect_doom_loop session_messages =
     (let recent_calls = scan_messages [] (rev session_messages)
      in if length recent_calls < DOOM_LOOP_THRESHOLD then False
         else list_all (\<lambda>call. call = hd recent_calls) recent_calls)"

text \<open>
  The pairs (tool name, serialized arguments) of the tool calls of a list of parts and of
  the assistant messages of a list of messages, in the order of the lists.
\<close>

definition part_calls :: "MessagePart list \<Rightarrow> (string \<times> string) list" where
  "part_calls ps =
     concat (map (\<lambda>p. case p of ToolPart tc \<Rightarrow> [(tool_name tc, dumps_sorted (tc_input tc))] | _ \<Rightarrow> []) ps)"

definition session_calls :: "Message list \<Rightarrow> (string \<times> string) list" where
  "session_calls ms =
     concat (map (\<lambda>m. case m of AssistantMsg a \<Rightarrow> part_calls (parts a) | _ \<Rightarrow> []) ms)"

text \<open>
  The detection as the specification words it, for comparison with \<open>detect_doom_loop\<close>:
  the last three tool calls of the assistant messages of the whole session, taken in
  reverse chronological order, exist and are all the same pair.
\<close>

definition spec_doom_loop :: "Message list \<Rightarrow> bool" where
  "spec_doom_loop ms =
     (let recent = take DOOM_LOOP_THRESHOLD (rev (session_calls ms))
      in if length recent < DOOM_LOOP_THRESHOLD then False
         else list_all (\<lambda>call. call = hd recent) recent)"

text \<open>Two tool-call parts used as concrete inputs below.\<close>

definition bash_ls :: "string \<Rightarrow> MessagePart" where
  "bash_ls i = ToolPart \<lparr>tc_id = i, tool_name = ''bash'', tc_input = JObj [(''command'', JStr ''ls'')],
       tc_state = COMPLETED, tc_output = Some ''a.txt'', tc_error = None, args_str = None\<rparr>"

definition read_a :: "string \<Rightarrow> MessagePart" where
  "read_a i = ToolPart \<lparr>tc_id = i, tool_name = ''read'', tc_input = JObj [(''file_path'', JStr ''a.txt'')],
       tc_state = COMPLETED, tc_output = Some ''text'', tc_error = None, args_str = None\<rparr>"

section \<open>Tool execution (src/tools/base.py, src/loop.py)\<close>

text \<open>
  \<^verbatim>\<open>ToolContext\<close>: of its fields only \<^verbatim>\<open>_preapproved\<close> (from a permission name to the set of
  pre-approved patterns, here a list) and the permission manager matter; the manager is
  passed separately. \<^verbatim>\<open>preapprove\<close> and \<^verbatim>\<open>ask_permission\<close> follow.
\<close>

definition preapprove :: "(string \<times> string list) list \<Rightarrow> string \<Rightarrow> string list \<Rightarrow> (string \<times> string list) list" where
  "preapprove ctx perm pats =
     dict_set ctx perm ((case map_of ctx perm of None \<Rightarrow> [] | Some ps \<Rightarrow> ps) @ pats)"

definition ask_permission :: "(string \<Rightarrow> string \<Rightarrow> bool) \<Rightarrow> (string \<times> string list) list \<Rightarrow> PermissionManager \<Rightarrow> string \<Rightarrow> string list \<Rightarrow> exn option \<times> PermissionManager" where
  "ask_permission fn ctx pm perm pats =
     (case map_of ctx perm of
        None \<Rightarrow> check fn pm perm pats
      | Some ps \<Rightarrow>
          (let remaining = filter (\<lambda>p. p \<notin> set ps) pats
           in if remaining = [] then (None, pm) else check fn pm perm remaining))"

text \<open>
  A tool is known by its \<^verbatim>\<open>execute(params, ctx)\<close>: from the input, the pre-approved
  patterns of the context and the permission manager to the \<^verbatim>\<open>output\<close> of its
  \<^verbatim>\<open>ToolResult\<close> or the exception it raises, and the manager afterwards. The environment of
  the loop holds what it is constructed with and the two library functions it calls:
  \<^verbatim>\<open>fnmatch.fnmatch\<close>, \<^verbatim>\<open>json.loads\<close> (\<open>None\<close> when it raises), the lookup
  \<^verbatim>\<open>self.tools.get\<close> and \<^verbatim>\<open>self.agent.max_steps\<close>.
\<close>

record env =
  fnmatch_fn :: "string \<Rightarrow> string \<Rightarrow> bool"
  json_loads :: "string \<Rightarrow> json option"
  tools :: "string \<Rightarrow> (json \<Rightarrow> (string \<times> string list) list \<Rightarrow> PermissionManager \<Rightarrow> (exn + string) \<times> PermissionManager) option"
  max_steps :: int

text \<open>
  The mutable state of an \<^verbatim>\<open>AgentLoop\<close> and what surrounds it: \<^verbatim>\<open>self.session.messages\<close>,
  \<^verbatim>\<open>self.permission\<close>, \<^verbatim>\<open>self.aborted\<close>; the results of the calls of \<^verbatim>\<open>self.provider.stream\<close>
  still to come (the chunks of each call and the exception that ends it, if any); the
  replies still to come to the prompt shown after a failed model call; and the record of
  the calls of \<^verbatim>\<open>tool.execute\<close> made so far (tool name and input).
\<close>

record world =
  messages :: "Message list"
  permission_manager :: PermissionManager
  aborted :: bool
  provider :: "(StreamChunk list \<times> exn option) list"
  llm_replies :: "string list"
  executed :: "(string \<times> json) list"


text \<open>
  Of \<^verbatim>\<open>_format_tool_summary\<close> and \<^verbatim>\<open>_display_tool_result\<close>, which only print, the model keeps
  whether they raise: \<^verbatim>\<open>input_data.get\<close> needs a dict, \<^verbatim>\<open>new_string.split\<close> a string,
  \<^verbatim>\<open>len\<close> a string, list or dict, and \<^verbatim>\<open>command[:77] + "..."\<close> a string.
\<close>

definition json_truthy :: "json \<Rightarrow> bool" where
  "json_truthy v =
     (case v of
        JNull \<Rightarrow> False
      | JBool b \<Rightarrow> b
      | JInt i \<Rightarrow> i \<noteq> 0
      | JStr t \<Rightarrow> t \<noteq> []
      | JArr xs \<Rightarrow> xs \<noteq> []
      | JObj kvs \<Rightarrow> kvs \<noteq> [])"

definition format_tool_summary_raises :: "ToolCall \<Rightarrow> bool" where
  "format_tool_summary_raises tc =
     (if tool_name tc \<in> set [''edit'', ''read'', ''bash'', ''glob'', ''list'', ''ask_user''] then
        (case tc_input tc of
           JObj kvs \<Rightarrow>
             (if tool_name tc = ''edit'' then
                (case map_of kvs ''new_string'' of
                   None \<Rightarrow> False
                 | Some v \<Rightarrow> json_truthy v \<and> (case v of JStr t \<Rightarrow> False | _ \<Rightarrow> True))
              else if tool_name tc = ''bash'' then
                (case map_of kvs ''command'' of
                   None \<Rightarrow> False
                 | Some v \<Rightarrow>
                     (case v of
                        JStr t \<Rightarrow> False
                      | JArr xs \<Rightarrow> length xs > 80
                      | JObj items \<Rightarrow> length items > 80
                      | _ \<Rightarrow> True))
              else if tool_name tc = ''ask_user'' then
                (case map_of kvs ''questions'' of
                   None \<Rightarrow> False
                 | Some v \<Rightarrow>
                     (case v of JNull \<Rightarrow> True | JBool b \<Rightarrow> True | JInt i \<Rightarrow> True | _ \<Rightarrow> False))
              else False)
         | _ \<Rightarrow> True)
      else False)"

definition display_tool_result_raises :: "ToolCall \<Rightarrow> bool" where
  "display_tool_result_raises tc =
     (if tool_name tc = ''edit'' then
        (case tc_input tc of
           JObj kvs \<Rightarrow>
             (case map_of kvs ''new_string'' of
                None \<Rightarrow> False
              | Some v \<Rightarrow>
                  (case v of
                     JStr t \<Rightarrow> False
                   | JArr xs \<Rightarrow> xs \<noteq> []
                   | JObj items \<Rightarrow> items \<noteq> []
                   | _ \<Rightarrow> True))
         | _ \<Rightarrow> True)
      else False)"

text \<open>
  The patterns of the early permission check. The schemas of the tools declare the
  arguments read here as strings, and the model covers string values only: for a truthy
  value of another type the code passes the value itself on to \<^verbatim>\<open>check\<close>, which the model
  does not follow (\<open>Unmodelled\<close>).
\<close>

datatype precheck = Patterns "string list" | PrecheckRaises exn | Unmodelled

definition precheck_key :: "string \<Rightarrow> string option" where
  "precheck_key name =
     (if name = ''bash'' then Some ''command''
      else if name = ''edit'' then Some ''file_path''
      else if name = ''read'' then Some ''file_path''
      else if name = ''list'' then Some ''path''
      else if name = ''glob'' then Some ''pattern''
      else None)"

definition precheck_patterns :: "ToolCall \<Rightarrow> precheck" where
  "precheck_patterns tc =
     (case precheck_key (tool_name tc) of
        None \<Rightarrow> Patterns []
      | Some key \<Rightarrow>
          (case tc_input tc of
             JObj kvs \<Rightarrow>
               (case map_of kvs key of
                  None \<Rightarrow> Patterns []
                | Some v \<Rightarrow>
                    if \<not> json_truthy v then Patterns []
                    else (case v of JStr t \<Rightarrow> Patterns [t] | _ \<Rightarrow> Unmodelled))
           | _ \<Rightarrow> PrecheckRaises (OtherException ''AttributeError'')))"

text \<open>
  The statements of the \<^verbatim>\<open>try\<close> block of \<^verbatim>\<open>_execute_tools\<close> up to the call of the tool: the
  result of \<^verbatim>\<open>tool.execute\<close> or the exception raised before or by it. \<open>None\<close>: the call is
  outside the model.
\<close>

definition try_tool :: "env \<Rightarrow> world \<Rightarrow> ToolCall \<Rightarrow> (json \<Rightarrow> (string \<times> string list) list \<Rightarrow> PermissionManager \<Rightarrow> (exn + string) \<times> PermissionManager) \<Rightarrow> ((exn + string) \<times> world) option" where
  "try_tool e w tc tool =
     (case precheck_patterns tc of
        Unmodelled \<Rightarrow> None
      | PrecheckRaises x \<Rightarrow> Some (Inl x, w)
      | Patterns pats \<Rightarrow>
          (case (if pats \<noteq> [] then check (fnmatch_fn e) (permission_manager w) (tool_name tc) pats
                 else (None, permission_manager w)) of
             (Some x, pm1) \<Rightarrow> Some (Inl x, w\<lparr>permission_manager := pm1\<rparr>)
           | (None, pm1) \<Rightarrow>
               (case tool (tc_input tc)
                       (if pats \<noteq> [] then preapprove [] (tool_name tc) pats else []) pm1 of
                  (r, pm2) \<Rightarrow>
                    Some (r, w\<lparr>permission_manager := pm2,
                               executed := executed w @ [(tool_name tc, tc_input tc)]\<rparr>))))"

text \<open>
  The body of \<^verbatim>\<open>for call_id, tc in tool_calls.items()\<close>: the exception that leaves
  \<^verbatim>\<open>_execute_tools\<close>, if any, the message and the state afterwards.
\<close>

definition one_tool :: "env \<Rightarrow> world \<Rightarrow> AssistantMessage \<Rightarrow> string \<Rightarrow> ToolCall \<Rightarrow> (exn option \<times> AssistantMessage \<times> world) option" where
  "one_tool e w assistant_msg call_id tc =
     (case tools e (tool_name tc) of
        None \<Rightarrow>
          Some (None,
                update_tool_part assistant_msg call_id ERROR None
                  (Some (''Unknown tool: '' @ tool_name tc)),
                w)
      | Some tool \<Rightarrow>
          if format_tool_summary_raises tc then
            Some (Some (OtherException ''_format_tool_summary''), assistant_msg, w)
          else
            (let running = update_tool_part assistant_msg call_id RUNNING None None
             in case try_tool e w tc tool of
                  None \<Rightarrow> None
                | Some (Inr out, w1) \<Rightarrow>
                    if display_tool_result_raises tc then
                      Some (None,
                            update_tool_part
                              (update_tool_part running call_id COMPLETED (Some out) None)
                              call_id ERROR None (Some ''_display_tool_result''), w1)
                    else
                      Some (None, update_tool_part running call_id COMPLETED (Some out) None, w1)
                | Some (Inl x, w1) \<Rightarrow>
                    (case x of
                       PermissionDeniedError m \<Rightarrow>
                         Some (Some x, update_tool_part running call_id ERROR None (Some m), w1)
                     | PermissionRejectedError m \<Rightarrow>
                         Some (Some x, update_tool_part running call_id ERROR None (Some m), w1)
                     | CancelledError \<Rightarrow> Some (Some x, running, w1)
                     | OtherException m \<Rightarrow>
                         Some (None, update_tool_part running call_id ERROR None (Some m), w1))))"

text \<open>\<^verbatim>\<open>AgentLoop._execute_tools(assistant_msg, tool_calls)\<close>.\<close>

fun execute_tools :: "env \<Rightarrow> world \<Rightarrow> AssistantMessage \<Rightarrow> (string \<times> ToolCall) list \<Rightarrow> (exn option \<times> AssistantMessage \<times> world) option" where
  "execute_tools e w assistant_msg [] = Some (None, assistant_msg, w)"
| "execute_tools e w assistant_msg ((call_id, tc) # rest) =
     (case one_tool e w assistant_msg call_id tc of
        None \<Rightarrow> None
      | Some (Some x, assistant_msg', w') \<Rightarrow> Some (Some x, assistant_msg', w')
      | Some (None, assistant_msg', w') \<Rightarrow> execute_tools e w' assistant_msg' rest)"

section \<open>Assembling a response and running a turn (src/loop.py)\<close>

text \<open>
  The local variables of \<^verbatim>\<open>_process_stream\<close>: \<^verbatim>\<open>current_text\<close>, the dict \<^verbatim>\<open>tool_calls\<close> in
  insertion order, and \<^verbatim>\<open>finish_reason\<close> (\<open>finish\<close>). The preview of \<^verbatim>\<open>edit\<close> calls and the
  status line only print and are left out.
\<close>

record stream_state =
  current_text :: string
  tool_calls :: "(string \<times> ToolCall) list"
  finish :: string

text \<open>
  The loop \<^verbatim>\<open>async for chunk in self.provider.stream(...)\<close> over the chunks of one call.
  It ends because the chunks are used up, because of \<^verbatim>\<open>break\<close>, because the user chose
  \<^verbatim>\<open>r\<close> after a failed call (\<open>LoopRetry\<close>: the recursive call comes next), or because a
  statement of the body raises: \<^verbatim>\<open>ToolCall(...)\<close> rejects a missing id or name, and
  \<^verbatim>\<open>Prompt.ask\<close> raises at the end of the input.
\<close>

datatype loop_exit = LoopExhausted | LoopBroke | LoopRetry | LoopRaised exn

fun chunk_loop :: "world \<Rightarrow> AssistantMessage \<Rightarrow> stream_state \<Rightarrow> StreamChunk list \<Rightarrow> loop_exit \<times> world \<times> AssistantMessage \<times> stream_state" where
  "chunk_loop w assistant_msg st [] = (LoopExhausted, w, assistant_msg, st)"
| "chunk_loop w assistant_msg st (chunk # rest) =
     (if aborted w then (LoopBroke, w, assistant_msg, st)
      else
        (case chunk of
           TextChunk content \<Rightarrow>
             chunk_loop w assistant_msg (st\<lparr>current_text := current_text st @ content\<rparr>) rest
         | ToolCallChunk tool_call_id name \<Rightarrow>
             (case tool_call_id of
                None \<Rightarrow> (LoopRaised (OtherException ''ValidationError''), w, assistant_msg, st)
              | Some i \<Rightarrow>
                  (case name of
                     None \<Rightarrow> (LoopRaised (OtherException ''ValidationError''), w, assistant_msg, st)
                   | Some n \<Rightarrow>
                       chunk_loop w assistant_msg
                         (st\<lparr>tool_calls := dict_set (tool_calls st) i
                               \<lparr>tc_id = i, tool_name = n, tc_input = JObj [], tc_state = PENDING,
                                tc_output = None, tc_error = None, args_str = None\<rparr>\<rparr>)
                         rest))
         | ToolCallDeltaChunk tool_call_id tool_args_delta \<Rightarrow>
             (case tool_call_id of
                None \<Rightarrow> chunk_loop w assistant_msg st rest
              | Some i \<Rightarrow>
                  (case map_of (tool_calls st) i of
                     None \<Rightarrow> chunk_loop w assistant_msg st rest
                   | Some tc \<Rightarrow>
                       chunk_loop w assistant_msg
                         (st\<lparr>tool_calls := dict_set (tool_calls st) i
                               (tc\<lparr>args_str :=
                                     Some ((case args_str tc of None \<Rightarrow> [] | Some a \<Rightarrow> a) @
                                           (case tool_args_delta of None \<Rightarrow> [] | Some d \<Rightarrow> d))\<rparr>)\<rparr>)
                         rest))
         | ErrorChunk err \<Rightarrow> chunk_loop w assistant_msg st rest
         | FinishChunk reason usage \<Rightarrow>
             (let assistant_msg1 =
                    (case usage of None \<Rightarrow> assistant_msg | Some u \<Rightarrow> assistant_msg\<lparr>tokens := u\<rparr>);
                  st1 = st\<lparr>finish := reason\<rparr>
              in if reason = ''error'' then
                   (case llm_replies w of
                      [] \<Rightarrow>
                        (LoopRaised (OtherException ''EOF when reading a line''), w,
                         assistant_msg1, st1)
                    | act # later \<Rightarrow>
                        if act = ''r'' then
                          (LoopRetry, w\<lparr>llm_replies := later\<rparr>, assistant_msg1, st1)
                        else if act = ''a'' then
                          chunk_loop (w\<lparr>llm_replies := later, aborted := True\<rparr>) assistant_msg1
                            (st1\<lparr>finish := ''aborted''\<rparr>) rest
                        else chunk_loop (w\<lparr>llm_replies := later\<rparr>) assistant_msg1 st1 rest)
                 else chunk_loop w assistant_msg1 st1 rest)))"

text \<open>
  The statements of \<^verbatim>\<open>_process_stream\<close> after the loop. \<open>parse_args\<close> is the parsing of one
  tool call: the attribute \<^verbatim>\<open>_args_str\<close>, when present, is parsed and deleted, and a failure
  of \<^verbatim>\<open>json.loads\<close> gives the record with the key \<^verbatim>\<open>raw\<close>.
\<close>

definition parse_args :: "(string \<Rightarrow> json option) \<Rightarrow> ToolCall \<Rightarrow> ToolCall" where
  "parse_args loads tc =
     (case args_str tc of
        None \<Rightarrow> tc
      | Some a \<Rightarrow>
          tc\<lparr>tc_input := (case loads a of Some v \<Rightarrow> v | None \<Rightarrow> JObj [(''raw'', JStr a)]),
             args_str := None\<rparr>)"

definition finalize :: "env \<Rightarrow> world \<Rightarrow> AssistantMessage \<Rightarrow> stream_state \<Rightarrow> ((exn + string) \<times> AssistantMessage \<times> world) option" where
  "finalize e w assistant_msg st =
     (let with_text =
            (if current_text st \<noteq> [] then add_text_part assistant_msg (current_text st)
             else assistant_msg)
      in if tool_calls st \<noteq> [] then
           (let parsed = map (\<lambda>(call_id, tc). (call_id, parse_args (json_loads e) tc)) (tool_calls st)
            in case execute_tools e w (foldl add_tool_part with_text (map snd parsed)) parsed of
                 None \<Rightarrow> None
               | Some (Some x, assistant_msg', w') \<Rightarrow> Some (Inl x, assistant_msg', w')
               | Some (None, assistant_msg', w') \<Rightarrow>
                   Some (Inr (if finish st = ''stop'' then ''tool_calls'' else finish st),
                         assistant_msg', w'))
         else Some (Inr (finish st), with_text, w))"

lemma chunk_loop_provider:
  "chunk_loop w assistant_msg st chunks = (x, w', assistant_msg', st') \<Longrightarrow> provider w' = provider w"
proof (induction chunks arbitrary: w assistant_msg st)
  case Nil
  then show ?case by auto
next
  case (Cons chunk rest)
  show ?case
  proof (cases "aborted w")
    case True
    with Cons.prems show ?thesis by auto
  next
    case False
    show ?thesis
    proof (cases chunk)
      case (TextChunk content)
      with False Cons.prems Cons.IH show ?thesis by fastforce
    next
      case (ToolCallChunk tool_call_id name)
      with False Cons.prems Cons.IH show ?thesis
        by (fastforce split: option.splits)
    next
      case (ToolCallDeltaChunk tool_call_id tool_args_delta)
      with False Cons.prems Cons.IH show ?thesis
        by (fastforce split: option.splits)
    next
      case (FinishChunk reason usage)
      with False Cons.prems Cons.IH show ?thesis
        by (fastforce simp: Let_def split: option.splits list.splits if_splits)
    next
      case (ErrorChunk err)
      with False Cons.prems Cons.IH show ?thesis by fastforce
    qed
  qed
qed

text \<open>
  \<^verbatim>\<open>AgentLoop._process_stream(assistant_msg)\<close>: the finish reason it returns or the exception
  it raises, the message and the state afterwards. \<open>None\<close>: no further call of the
  provider is described, or a tool call is outside the model. The handler of
  \<^verbatim>\<open>asyncio.CancelledError\<close> encloses the loop and the recursive call.
\<close>

function process_stream :: "env \<Rightarrow> world \<Rightarrow> AssistantMessage \<Rightarrow> ((exn + string) \<times> AssistantMessage \<times> world) option" where
  "process_stream e w assistant_msg =
     (case provider w of
        [] \<Rightarrow> None
      | (chunks, raised) # later \<Rightarrow>
          (case chunk_loop (w\<lparr>provider := later\<rparr>) assistant_msg
                  \<lparr>current_text = [], tool_calls = [], finish = ''stop''\<rparr> chunks of
             (LoopRaised x, w1, assistant_msg1, st) \<Rightarrow> Some (Inl x, assistant_msg1, w1)
           | (LoopRetry, w1, assistant_msg1, st) \<Rightarrow>
               (case process_stream e w1 assistant_msg1 of
                  None \<Rightarrow> None
                | Some (Inl x, assistant_msg2, w2) \<Rightarrow>
                    if x = CancelledError then
                      Some (Inl x,
                            (if current_text st \<noteq> [] then add_text_part assistant_msg2 (current_text st)
                             else assistant_msg2),
                            w2\<lparr>aborted := True\<rparr>)
                    else Some (Inl x, assistant_msg2, w2)
                | Some (Inr reason, assistant_msg2, w2) \<Rightarrow> Some (Inr reason, assistant_msg2, w2))
           | (LoopBroke, w1, assistant_msg1, st) \<Rightarrow> finalize e w1 assistant_msg1 st
           | (LoopExhausted, w1, assistant_msg1, st) \<Rightarrow>
               (case raised of
                  None \<Rightarrow> finalize e w1 assistant_msg1 st
                | Some x \<Rightarrow>
                    if x = CancelledError then
                      Some (Inl x,
                            (if current_text st \<noteq> [] then add_text_part assistant_msg1 (current_text st)
                             else assistant_msg1),
                            w1\<lparr>aborted := True\<rparr>)
                    else Some (Inl x, assistant_msg1, w1))))"
  by pat_completeness auto
termination
proof (relation "measure (\<lambda>(e, w, assistant_msg). length (provider w))")
  show "wf (measure (\<lambda>(e, w, assistant_msg). length (provider w)))" by simp
next
  fix e w assistant_msg x21 later chunks raised a b w1 c assistant_msg1 st
  assume "provider w = x21 # later" and "(chunks, raised) = x21"
    and "(a, b) = chunk_loop (w\<lparr>provider := later\<rparr>) assistant_msg
                   \<lparr>current_text = [], tool_calls = [], finish = ''stop''\<rparr> chunks"
    and "(w1, c) = b" and "(assistant_msg1, st) = c" and "a = LoopRetry"
  then have "chunk_loop (w\<lparr>provider := later\<rparr>) assistant_msg
                   \<lparr>current_text = [], tool_calls = [], finish = ''stop''\<rparr> chunks =
             (LoopRetry, w1, assistant_msg1, st)"
    by (metis)
  from chunk_loop_provider [OF this] \<open>provider w = x21 # later\<close>
  show "((e, w1, assistant_msg1), e, w, assistant_msg)
        \<in> measure (\<lambda>(e, w, assistant_msg). length (provider w))"
    by simp
qed

declare process_stream.simps [simp del]

text \<open>
  \<^verbatim>\<open>AgentLoop.run\<close>. The current \<^verbatim>\<open>assistant_msg\<close> is the object appended last to the
  messages of the session, so writing to it is writing to the last position of that list
  (\<open>store\<close>). The result carries the \<^verbatim>\<open>return\<close> statement that ended the turn: the one
  after a finish reason other than \<^verbatim>\<open>tool_calls\<close>, the one after a rejected doom-loop
  prompt, those of the four \<^verbatim>\<open>except\<close> clauses, or the one after the \<^verbatim>\<open>while\<close> loop.
\<close>

datatype run_exit = Completed | DoomStopped | Interrupted | Denied | Rejected | Errored | LoopExited

definition store :: "AssistantMessage \<Rightarrow> world \<Rightarrow> world" where
  "store assistant_msg w = w\<lparr>messages := butlast (messages w) @ [AssistantMsg assistant_msg]\<rparr>"

definition create_assistant_message :: AssistantMessage where
  "create_assistant_message = \<lparr>parts = [], finish_reason = None, msg_error = None, tokens = (0, 0, 0)\<rparr>"

definition except_clause :: "exn \<Rightarrow> AssistantMessage \<Rightarrow> world \<Rightarrow> run_exit \<times> AssistantMessage option \<times> world" where
  "except_clause x assistant_msg w =
     (case x of
        CancelledError \<Rightarrow>
          (let m = assistant_msg\<lparr>finish_reason := Some ''interrupted''\<rparr>
           in (Interrupted, Some m, store m w))
      | PermissionDeniedError txt \<Rightarrow>
          (let m = assistant_msg\<lparr>msg_error := Some txt, finish_reason := Some ''error''\<rparr>
           in (Denied, Some m, store m w))
      | PermissionRejectedError txt \<Rightarrow>
          (let m = assistant_msg\<lparr>finish_reason := Some ''stopped''\<rparr>
           in (Rejected, Some m, store m w))
      | OtherException txt \<Rightarrow>
          (let m = assistant_msg\<lparr>msg_error := Some txt, finish_reason := Some ''error''\<rparr>
           in (Errored, Some m, store m w)))"

function run_loop :: "env \<Rightarrow> world \<Rightarrow> int \<Rightarrow> AssistantMessage option \<Rightarrow> (run_exit \<times> AssistantMessage option \<times> world) option" where
  "run_loop e w step assistant_msg =
     (if step < max_steps e \<and> \<not> aborted w then
        (case process_stream e (w\<lparr>messages := messages w @ [AssistantMsg create_assistant_message]\<rparr>)
                create_assistant_message of
           None \<Rightarrow> None
         | Some (Inl x, m1, w1) \<Rightarrow> Some (except_clause x m1 w1)
         | Some (Inr reason, m1, w1) \<Rightarrow>
             (let m2 = m1\<lparr>finish_reason := Some reason\<rparr>; w2 = store m2 w1
              in if reason \<noteq> ''tool_calls'' then Some (Completed, Some m2, w2)
                 else if detect_doom_loop (messages w2) then
                   (case check (fnmatch_fn e) (permission_manager w2) ''doom_loop'' [''*''] of
                      (None, pm) \<Rightarrow>
                        run_loop e (w2\<lparr>permission_manager := pm\<rparr>) (step + 1) (Some m2)
                    | (Some x, pm) \<Rightarrow>
                        (case x of
                           PermissionRejectedError txt \<Rightarrow>
                             (let m3 = m2\<lparr>finish_reason := Some ''stopped''\<rparr>
                              in Some (DoomStopped, Some m3,
                                       store m3 (w2\<lparr>permission_manager := pm\<rparr>)))
                         | _ \<Rightarrow> Some (except_clause x m2 (w2\<lparr>permission_manager := pm\<rparr>))))
                 else run_loop e w2 (step + 1) (Some m2)))
      else Some (LoopExited, assistant_msg, w))"
  by pat_completeness auto
termination
  by (relation "measure (\<lambda>(e, w, step, assistant_msg). nat (max_steps e - step))") auto

declare run_loop.simps [simp del]

definition run :: "env \<Rightarrow> world \<Rightarrow> string \<Rightarrow> (run_exit \<times> AssistantMessage option \<times> world) option" where
  "run e w user_input =
     run_loop e (w\<lparr>messages := messages w @ [UserMessage [TextPart user_input False]]\<rparr>) 0 None"

section \<open>Concrete inputs for the agent loop\<close>

text \<open>
  An environment and a state to run the loop on. \<open>sample_loads\<close> agrees with \<^verbatim>\<open>json.loads\<close>
  on the argument strings used below (two of them are complete objects, the others are not
  JSON). \<open>bash_tool out\<close> follows \<^verbatim>\<open>BashTool.execute\<close>: it reads \<^verbatim>\<open>params["command"]\<close>, asks
  for the permission through the context and returns; \<open>out\<close> stands for the output of the
  command. \<open>list_tool out\<close> follows \<^verbatim>\<open>ListTool.execute\<close>: it reads
  \<^verbatim>\<open>params.get("path", ".")\<close>, asks for no permission and returns the listing \<open>out\<close>. The
  registry holds these two tools; the permission manager is the default one, with the
  replies of the user as a parameter.
\<close>

definition sample_loads :: "string \<Rightarrow> json option" where
  "sample_loads s =
     (if s = ''{\"command\": \"ls\"}'' then Some (JObj [(''command'', JStr ''ls'')])
      else if s = ''{\"command\": \"rm x\"}'' then Some (JObj [(''command'', JStr ''rm x'')])
      else None)"

definition bash_tool :: "string \<Rightarrow> json \<Rightarrow> (string \<times> string list) list \<Rightarrow> PermissionManager \<Rightarrow> (exn + string) \<times> PermissionManager" where
  "bash_tool out params ctx pm =
     (case params of
        JObj kvs \<Rightarrow>
          (case map_of kvs ''command'' of
             None \<Rightarrow> (Inl (OtherException ''KeyError''), pm)
           | Some v \<Rightarrow>
               (case v of
                  JStr command \<Rightarrow>
                    (case ask_permission fnmatch ctx pm ''bash'' [command] of
                       (Some x, pm') \<Rightarrow> (Inl x, pm')
                     | (None, pm') \<Rightarrow> (Inr out, pm'))
                | _ \<Rightarrow> (Inl (OtherException ''TypeError''), pm)))
      | _ \<Rightarrow> (Inl (OtherException ''TypeError''), pm))"

definition list_tool :: "string \<Rightarrow> json \<Rightarrow> (string \<times> string list) list \<Rightarrow> PermissionManager \<Rightarrow> (exn + string) \<times> PermissionManager" where
  "list_tool out params ctx pm =
     (case params of
        JObj kvs \<Rightarrow>
          (case map_of kvs ''path'' of
             None \<Rightarrow> (Inr out, pm)
           | Some v \<Rightarrow>
               (case v of JStr path \<Rightarrow> (Inr out, pm) | _ \<Rightarrow> (Inl (OtherException ''TypeError''), pm)))
      | _ \<Rightarrow> (Inl (OtherException ''AttributeError''), pm))"

definition sample_env :: "int \<Rightarrow> env" where
  "sample_env n =
     \<lparr>fnmatch_fn = fnmatch, json_loads = sample_loads,
      tools = (\<lambda>name. if name = ''bash'' then Some (bash_tool ''a.txt'')
                       else if name = ''list'' then Some (list_tool ''Empty directory'')
                       else None),
      max_steps = n\<rparr>"

definition sample_world :: "string list \<Rightarrow> (StreamChunk list \<times> exn option) list \<Rightarrow> world" where
  "sample_world user calls =
     \<lparr>messages = [], permission_manager = create_default_permission_manager user, aborted = False,
      provider = calls, llm_replies = [], executed = []\<rparr>"

text \<open>One call of the provider that requests \<^verbatim>\<open>bash\<close> with the command \<^verbatim>\<open>ls\<close>, the arguments
  arriving in two fragments; two tool calls of a step; and the state after one such step.\<close>

definition ls_step :: "string \<Rightarrow> StreamChunk list \<times> exn option" where
  "ls_step i =
     ([ToolCallChunk (Some i) (Some ''bash''),
       ToolCallDeltaChunk (Some i) (Some ''{\"command\": ''),
       ToolCallDeltaChunk (Some i) (Some ''\"ls\"}''),
       FinishChunk ''tool_calls'' None], None)"

definition grep_call :: ToolCall where
  "grep_call = \<lparr>tc_id = ''call_1'', tool_name = ''grep'', tc_input = JObj [(''pattern'', JStr ''TODO'')],
                 tc_state = PENDING, tc_output = None, tc_error = None, args_str = None\<rparr>"

definition ls_call :: ToolCall where
  "ls_call = \<lparr>tc_id = ''call_2'', tool_name = ''bash'', tc_input = JObj [(''command'', JStr ''ls'')],
               tc_state = PENDING, tc_output = None, tc_error = None, args_str = None\<rparr>"

definition world_after_ls :: world where
  "world_after_ls =
     \<lparr>messages =
        [UserMessage [TextPart ''list the files'' False],
         AssistantMsg \<lparr>parts = [bash_ls ''call_1''], finish_reason = Some ''tool_calls'',
                       msg_error = None, tokens = (0, 0, 0)\<rparr>],
      permission_manager = create_default_permission_manager [],
      aborted = False, provider = [], llm_replies = [],
      executed = [(''bash'', JObj [(''command'', JStr ''ls'')])]\<rparr>"

text \<open>Projections and predicates for stating results: the \<^verbatim>\<open>return\<close> statement taken and the
  finish reason of the returned message; and "the returned message is the last message of
  the session and its finish reason is \<^verbatim>\<open>tool_calls\<close>".\<close>

definition exit_and_reason :: "(run_exit \<times> AssistantMessage option \<times> world) option \<Rightarrow> (run_exit \<times> string option) option" where
  "exit_and_reason r =
     (case r of
        None \<Rightarrow> None
      | Some (x, m, w) \<Rightarrow> Some (x, (case m of None \<Rightarrow> None | Some msg \<Rightarrow> finish_reason msg)))"

definition ended_on_tool_calls :: "AssistantMessage option \<Rightarrow> world \<Rightarrow> bool" where
  "ended_on_tool_calls r w \<longleftrightarrow>
     (\<exists>msg. r = Some msg \<and> finish_reason msg = Some ''tool_calls'' \<and>
            messages w \<noteq> [] \<and> last (messages w) = AssistantMsg msg)"











section \<open>Properties of the permission engine\<close>

lemma evaluate_loop_no_match:
  "\<forall>r \<in> set rs. \<not> rule_matches fn perm pat r \<Longrightarrow> evaluate_loop fn rs perm pat = ASK"
  by (induction rs) (auto simp: rule_matches_def)

lemma evaluate_loop_first_match:
  "\<forall>q \<in> set pre. \<not> rule_matches fn perm pat q \<Longrightarrow> rule_matches fn perm pat r \<Longrightarrow>
   evaluate_loop fn (pre @ r # post) perm pat = action r"
  by (induction pre) (auto simp: rule_matches_def)

text \<open>
  Claim C1. Evaluation is last-match-wins with default ask. The combined list is the
  configured rules followed by the rules approved at run time. For every matcher of the
  non-\<^verbatim>\<open>*\<close> patterns, every manager and every (scope, target): if no rule of the combined
  list matches, \<open>evaluate\<close> returns \<open>ASK\<close>; and if the combined list splits as
  \<open>pre @ r # post\<close> where \<open>r\<close> matches and no rule of \<open>post\<close> matches (so \<open>r\<close> is the last
  matching rule), \<open>evaluate\<close> returns the action of \<open>r\<close>. A rule matches when its
  permission pattern matches the scope and its target pattern matches the target, the
  pattern \<^verbatim>\<open>*\<close> matching every string (\<open>rule_matches\<close>, \<open>pm_match\<close>).
\<close>

theorem evaluate_last_match_wins:
  "((\<forall>r \<in> set (rules pm @ approved pm). \<not> rule_matches fn scope target r)
      \<longrightarrow> evaluate fn pm scope target = ASK) \<and>
   (\<forall>pre r post. rules pm @ approved pm = pre @ r # post \<and> rule_matches fn scope target r \<and>
        (\<forall>q \<in> set post. \<not> rule_matches fn scope target q)
      \<longrightarrow> evaluate fn pm scope target = action r)"
proof (intro conjI impI allI)
  assume "\<forall>r \<in> set (rules pm @ approved pm). \<not> rule_matches fn scope target r"
  then have "\<forall>r \<in> set (rev (rules pm @ approved pm)). \<not> rule_matches fn scope target r"
    by auto
  then show "evaluate fn pm scope target = ASK"
    unfolding evaluate_def by (rule evaluate_loop_no_match)
next
  fix pre r post
  assume h: "rules pm @ approved pm = pre @ r # post \<and> rule_matches fn scope target r \<and>
        (\<forall>q \<in> set post. \<not> rule_matches fn scope target q)"
  then have "rev (rules pm @ approved pm) = rev post @ r # rev pre" by simp
  moreover from h have "\<forall>q \<in> set (rev post). \<not> rule_matches fn scope target q" by simp
  ultimately show "evaluate fn pm scope target = action r"
    unfolding evaluate_def using h by (simp add: evaluate_loop_first_match)
qed

text \<open>
  At concrete inputs: no rule at all gives \<open>ASK\<close>; with the configured rules \<^verbatim>\<open>*/*\<close> allow and
  \<^verbatim>\<open>bash/rm *\<close> deny and the approved rules \<^verbatim>\<open>bash/rm -r build\<close> allow and \<^verbatim>\<open>edit/*.env\<close>
  allow, the command \<^verbatim>\<open>rm -r build\<close> is allowed by the approved rule, the last that matches;
  without approved rules it is denied by the second configured rule.
\<close>

theorem evaluate_last_match_wins_witness:
  "evaluate fnmatch \<lparr>rules = [], approved = [], replies = [], asked = []\<rparr> ''bash'' ''ls'' = ASK \<and>
   evaluate fnmatch
     \<lparr>rules = [\<lparr>permission = ''*'', pattern = ''*'', action = ALLOW\<rparr>,
               \<lparr>permission = ''bash'', pattern = ''rm *'', action = DENY\<rparr>],
      approved = [\<lparr>permission = ''bash'', pattern = ''rm -r build'', action = ALLOW\<rparr>,
                  \<lparr>permission = ''edit'', pattern = ''*.env'', action = ALLOW\<rparr>],
      replies = [], asked = []\<rparr> ''bash'' ''rm -r build'' = ALLOW \<and>
   evaluate fnmatch
     \<lparr>rules = [\<lparr>permission = ''*'', pattern = ''*'', action = ALLOW\<rparr>,
               \<lparr>permission = ''bash'', pattern = ''rm *'', action = DENY\<rparr>],
      approved = [], replies = [], asked = []\<rparr> ''bash'' ''rm -r build'' = DENY"
proof -
  let ?pm0 = "\<lparr>rules = [], approved = [], replies = [], asked = []\<rparr>"
  let ?R1 = "\<lparr>permission = ''*'', pattern = ''*'', action = ALLOW\<rparr>"
  let ?R2 = "\<lparr>permission = ''bash'', pattern = ''rm *'', action = DENY\<rparr>"
  let ?R3 = "\<lparr>permission = ''bash'', pattern = ''rm -r build'', action = ALLOW\<rparr>"
  let ?R4 = "\<lparr>permission = ''edit'', pattern = ''*.env'', action = ALLOW\<rparr>"
  let ?pm1 = "\<lparr>rules = [?R1, ?R2], approved = [?R3, ?R4], replies = [], asked = []\<rparr>"
  let ?pm2 = "\<lparr>rules = [?R1, ?R2], approved = [], replies = [], asked = []\<rparr>"
  note ev = fnmatch_def bracket_def in_set_def in_items_def rule_matches_def pm_match_def
  have a: "evaluate fnmatch ?pm0 ''bash'' ''ls'' = ASK"
    using evaluate_last_match_wins [of ?pm0 fnmatch "''bash''" "''ls''"] by simp
  have "rule_matches fnmatch ''bash'' ''rm -r build'' ?R3"
    by (simp add: ev)
  moreover have "\<not> rule_matches fnmatch ''bash'' ''rm -r build'' ?R4"
    by (simp add: ev)
  ultimately have b: "evaluate fnmatch ?pm1 ''bash'' ''rm -r build'' = ALLOW"
    using evaluate_last_match_wins [of ?pm1 fnmatch "''bash''" "''rm -r build''",
        THEN conjunct2, rule_format, of "[?R1, ?R2]" ?R3 "[?R4]"] by simp
  have "rule_matches fnmatch ''bash'' ''rm -r build'' ?R2"
    by (simp add: ev)
  then have c: "evaluate fnmatch ?pm2 ''bash'' ''rm -r build'' = DENY"
    using evaluate_last_match_wins [of ?pm2 fnmatch "''bash''" "''rm -r build''",
        THEN conjunct2, rule_format, of "[?R1]" ?R2 "[]"] by simp
  from a b c show ?thesis by blast
qed

text \<open>
  What \<^verbatim>\<open>always\<close> does achieve: the appended rule is the last rule of the combined list,
  so it decides the next evaluation of the same pair whenever the scope and the target,
  read as patterns, match themselves.
\<close>

lemma default_ask_always_remembered:
  assumes "replies pm = ''always'' # rest" and "pm_match fn perm perm" and "pm_match fn pat pat"
  shows "evaluate fn (snd (default_ask pm perm pat)) perm pat = ALLOW"
  using assms by (simp add: default_ask_def Let_def evaluate_def)

text \<open>
  Claim C5. After a pair has been marked \<^verbatim>\<open>always\<close>, evaluating the identical pair
  returns allow and a further check does not ask again. The code stores the target
  itself as the pattern of the new rule and later reads it as a glob, so the claim fails
  for a target with a bracket expression, which does not match itself. The default
  manager, a user who answers \<^verbatim>\<open>always\<close> and then \<^verbatim>\<open>n\<close>, scope \<^verbatim>\<open>bash\<close>, target
  \<^verbatim>\<open>sudo rm [ab].txt\<close>: the first check asks and appends the allow rule; evaluating the
  same pair again returns \<open>ASK\<close> (the rule \<^verbatim>\<open>bash / sudo *\<close> decides); the second check
  invokes the callback a second time and raises \<^verbatim>\<open>PermissionRejectedError\<close>.
\<close>

theorem always_forgotten_for_bracket_target:
  "check fnmatch (create_default_permission_manager [''always'', ''n'']) ''bash''
       [''sudo rm [ab].txt''] =
     (None, \<lparr>rules = DEFAULT_RULES,
             approved = [\<lparr>permission = ''bash'', pattern = ''sudo rm [ab].txt'', action = ALLOW\<rparr>],
             replies = [''n''], asked = [(''bash'', ''sudo rm [ab].txt'')]\<rparr>) \<and>
   evaluate fnmatch
     \<lparr>rules = DEFAULT_RULES,
      approved = [\<lparr>permission = ''bash'', pattern = ''sudo rm [ab].txt'', action = ALLOW\<rparr>],
      replies = [''n''], asked = [(''bash'', ''sudo rm [ab].txt'')]\<rparr>
     ''bash'' ''sudo rm [ab].txt'' = ASK \<and>
   check fnmatch
     \<lparr>rules = DEFAULT_RULES,
      approved = [\<lparr>permission = ''bash'', pattern = ''sudo rm [ab].txt'', action = ALLOW\<rparr>],
      replies = [''n''], asked = [(''bash'', ''sudo rm [ab].txt'')]\<rparr>
     ''bash'' [''sudo rm [ab].txt''] =
     (Some (PermissionRejectedError
        (''User rejected permission '' @ [CHR 0x27] @ ''bash'' @ [CHR 0x27] @
         '' for '' @ [CHR 0x27] @ ''sudo rm [ab].txt'' @ [CHR 0x27])),
      \<lparr>rules = DEFAULT_RULES,
       approved = [\<lparr>permission = ''bash'', pattern = ''sudo rm [ab].txt'', action = ALLOW\<rparr>],
       replies = [],
       asked = [(''bash'', ''sudo rm [ab].txt''), (''bash'', ''sudo rm [ab].txt'')]\<rparr>)"
  by (simp add: create_default_permission_manager_def DEFAULT_RULES_def evaluate_def
        default_ask_def fnmatch_def bracket_def in_set_def in_items_def pm_match_def Let_def)

section \<open>Properties of the provider's retry loop\<close>

lemma starts_with_map: "starts_with s k \<Longrightarrow> starts_with (map f s) (map f k)"
  by (induction s k rule: starts_with.induct) auto

lemma contains_map: "contains k s \<Longrightarrow> contains (map f k) (map f s)"
proof (induction s)
  case Nil
  then show ?case by simp
next
  case (Cons c cs)
  then show ?case using starts_with_map [of "c # cs" k f] by auto
qed

lemma rate_limit_retryable: "rate_limit_text txt \<Longrightarrow> retryable_text (str_lower txt)"
proof -
  assume "rate_limit_text txt"
  then consider "contains ''rate'' (str_lower txt)" | "contains ''429'' txt"
    by (auto simp: rate_limit_text_def)
  then show ?thesis
  proof cases
    case 1
    then show ?thesis by (simp add: retryable_text_def)
  next
    case 2
    have "map lower_char ''429'' = ''429''" by (simp add: lower_char_def)
    with contains_map [OF 2, of lower_char] have "contains ''429'' (str_lower txt)"
      by (simp add: str_lower_def)
    then show ?thesis by (simp add: retryable_text_def)
  qed
qed

lemmas stream_eval = stream_def stream_from.simps try_body_def except_clauses_def
  retryable_text_def rate_limit_text_def str_lower_def lower_char_def Let_def

text \<open>
  Claim C3, the failing part. The claim gives the delay as
  \<open>min (initial_delay * base ^ n) max_delay\<close>. The provider's loop has no cap: with
  \<^verbatim>\<open>retry_delay = 40\<close> and the default three retries, a connection that fails every time
  makes the generator sleep 40, 80 and 160 seconds, whereas the formula with the
  \<^verbatim>\<open>max_delay\<close> of \<^verbatim>\<open>RetryConfig\<close> (60, the only cap in the code) gives 60 for attempt 1.
\<close>

theorem provider_delay_not_capped:
  "sleeps (fst (stream \<lparr>timeout = 120, connect_timeout = 30, max_retries = 3, retry_delay = 40\<rparr>
                  always_reset)) = [40, 80, 160] \<and>
   min (40 * 2 ^ 1) (max_delay DEFAULT_RETRY_CONFIG) = (60 :: real)"
  by (simp add: stream_eval always_reset_def DEFAULT_RETRY_CONFIG_def)

text \<open>
  The capped formula is the delay of \<^verbatim>\<open>retry_async\<close> for an exception without
  \<^verbatim>\<open>retry_after\<close>; that function has no ten-second floor.
\<close>

lemma retry_async_delay_formula:
  "retry_async_delay config n None =
     min (initial_delay config * exponential_base config ^ n) (max_delay config)"
  by (simp add: retry_async_delay_def)

text \<open>
  Claim C3, as amended. In the provider's retry loop, when attempt \<open>n\<close> (counted from 0,
  with \<open>n < max_retries\<close>) raises an exception other than a timeout or a cancellation:
  if the text of the exception contains \<^verbatim>\<open>rate\<close> in any letter case or contains \<^verbatim>\<open>429\<close>,
  the generator yields the retry message, sleeps \<open>max (retry_delay * 2 ^ n) 10\<close>
  seconds, which is at least 10 for every \<open>n\<close>, and goes on with attempt \<open>n + 1\<close>; if
  the text is retryable without such a signal, it sleeps \<open>retry_delay * 2 ^ n\<close> seconds:
  the base is fixed at 2 and there is no maximum delay.
\<close>

theorem provider_retry_delay:
  assumes "int n < max_retries cfg"
    and "try_body (api n) = (evs, BodyRaised (Failure tname txt))"
  shows "(rate_limit_text txt \<longrightarrow>
            stream_from cfg api n le =
              (evs @ [Yield (ErrorChunk (RetryText tname (take 100 txt) (n + 1)
                                 (max (retry_delay cfg * 2 ^ n) 10))),
                      Sleep (max (retry_delay cfg * 2 ^ n) 10)] @
                 fst (stream_from cfg api (n + 1) (ErrorStr txt)),
               snd (stream_from cfg api (n + 1) (ErrorStr txt))) \<and>
            10 \<le> max (retry_delay cfg * 2 ^ n) 10) \<and>
         (retryable_text (str_lower txt) \<and> \<not> rate_limit_text txt \<longrightarrow>
            stream_from cfg api n le =
              (evs @ [Yield (ErrorChunk (RetryText tname (take 100 txt) (n + 1)
                                 (retry_delay cfg * 2 ^ n))),
                      Sleep (retry_delay cfg * 2 ^ n)] @
                 fst (stream_from cfg api (n + 1) (ErrorStr txt)),
               snd (stream_from cfg api (n + 1) (ErrorStr txt))))"
proof -
  let ?next = "stream_from cfg api (n + 1) (ErrorStr txt)"
  have unfold: "stream_from cfg api n le =
      (case except_clauses cfg n (Failure tname txt) of
         Stop evs1 r \<Rightarrow> (evs @ evs1, r)
       | Continue evs1 le' \<Rightarrow>
           (case stream_from cfg api (n + 1) le' of (evs', r) \<Rightarrow> (evs @ evs1 @ evs', r)))"
    using assms by (simp add: stream_from.simps [of cfg api n le])
  show ?thesis
  proof (intro conjI impI)
    assume rl: "rate_limit_text txt"
    then have "retryable_text (str_lower txt)" by (rule rate_limit_retryable)
    with rl assms(1) show "stream_from cfg api n le =
              (evs @ [Yield (ErrorChunk (RetryText tname (take 100 txt) (n + 1)
                                 (max (retry_delay cfg * 2 ^ n) 10))),
                      Sleep (max (retry_delay cfg * 2 ^ n) 10)] @ fst ?next, snd ?next)"
      by (simp add: unfold except_clauses_def Let_def split: prod.splits)
  next
    show "10 \<le> max (retry_delay cfg * 2 ^ n) 10" by simp
  next
    assume "retryable_text (str_lower txt) \<and> \<not> rate_limit_text txt"
    with assms(1) show "stream_from cfg api n le =
              (evs @ [Yield (ErrorChunk (RetryText tname (take 100 txt) (n + 1)
                                 (retry_delay cfg * 2 ^ n))),
                      Sleep (retry_delay cfg * 2 ^ n)] @ fst ?next, snd ?next)"
      by (simp add: unfold except_clauses_def Let_def split: prod.splits)
  qed
qed

text \<open>
  At concrete inputs, with the default configuration and attempt 2: a rate-limit text gives
  the delay \<open>max 4 10 = 10\<close>, a connection error gives \<open>1 * 2 ^ 2 = 4\<close>.
\<close>

theorem provider_retry_delay_witness:
  "stream_from DEFAULT_LLM_CONFIG always_rate_limited 2 NoError =
     ([Yield (ErrorChunk (RetryText ''RateLimitError'' ''Error code: 429 - Rate limit reached'' 3 10)),
       Sleep 10] @
        fst (stream_from DEFAULT_LLM_CONFIG always_rate_limited 3
               (ErrorStr ''Error code: 429 - Rate limit reached'')),
      snd (stream_from DEFAULT_LLM_CONFIG always_rate_limited 3
               (ErrorStr ''Error code: 429 - Rate limit reached''))) \<and>
   stream_from DEFAULT_LLM_CONFIG always_reset 2 NoError =
     ([Yield (ErrorChunk (RetryText ''APIConnectionError'' ''Connection error.'' 3 4)), Sleep 4] @
        fst (stream_from DEFAULT_LLM_CONFIG always_reset 3 (ErrorStr ''Connection error.'')),
      snd (stream_from DEFAULT_LLM_CONFIG always_reset 3 (ErrorStr ''Connection error.'')))"
proof -
  have n: "int 2 < max_retries DEFAULT_LLM_CONFIG"
    by (simp add: DEFAULT_LLM_CONFIG_def)
  have b1: "try_body (always_rate_limited 2) =
      ([], BodyRaised (Failure ''RateLimitError'' ''Error code: 429 - Rate limit reached''))"
    by (simp add: try_body_def always_rate_limited_def)
  have b2: "try_body (always_reset 2) =
      ([], BodyRaised (Failure ''APIConnectionError'' ''Connection error.''))"
    by (simp add: try_body_def always_reset_def)
  have r1: "rate_limit_text ''Error code: 429 - Rate limit reached''"
    by (simp add: rate_limit_text_def)
  have r2: "retryable_text (str_lower ''Connection error.'') \<and> \<not> rate_limit_text ''Connection error.''"
    by (simp add: retryable_text_def rate_limit_text_def str_lower_def lower_char_def)
  have d: "retry_delay DEFAULT_LLM_CONFIG * 2 ^ 2 = 4" "max (retry_delay DEFAULT_LLM_CONFIG * 2 ^ 2) 10 = 10"
    by (simp_all add: DEFAULT_LLM_CONFIG_def)
  from provider_retry_delay [where n = 2 and api = always_rate_limited and le = NoError, OF n b1] r1 d
  have w1: "stream_from DEFAULT_LLM_CONFIG always_rate_limited 2 NoError =
     ([Yield (ErrorChunk (RetryText ''RateLimitError'' ''Error code: 429 - Rate limit reached'' 3 10)),
       Sleep 10] @
        fst (stream_from DEFAULT_LLM_CONFIG always_rate_limited 3
               (ErrorStr ''Error code: 429 - Rate limit reached'')),
      snd (stream_from DEFAULT_LLM_CONFIG always_rate_limited 3
               (ErrorStr ''Error code: 429 - Rate limit reached'')))"
    by simp
  from provider_retry_delay [where n = 2 and api = always_reset and le = NoError, OF n b2] r2 d
  have w2: "stream_from DEFAULT_LLM_CONFIG always_reset 2 NoError =
     ([Yield (ErrorChunk (RetryText ''APIConnectionError'' ''Connection error.'' 3 4)), Sleep 4] @
        fst (stream_from DEFAULT_LLM_CONFIG always_reset 3 (ErrorStr ''Connection error.'')),
      snd (stream_from DEFAULT_LLM_CONFIG always_reset 3 (ErrorStr ''Connection error.'')))"
    by simp
  from w1 w2 show ?thesis by blast
qed

text \<open>
  The clause for \<^verbatim>\<open>asyncio.TimeoutError\<close> computes the same uncapped delay and, having no
  text to inspect, has no ten-second floor.
\<close>

lemma provider_timeout_delay:
  "int n < max_retries cfg \<Longrightarrow>
   except_clauses cfg n TimeoutError =
     Continue [Yield (ErrorChunk (ConnectRetryText (ConnectTimeout (connect_timeout cfg)) (n + 1)
                                    (retry_delay cfg * 2 ^ n))),
               Sleep (retry_delay cfg * 2 ^ n)]
       (ConnectTimeout (connect_timeout cfg))"
  by (simp add: except_clauses_def Let_def)

text \<open>
  Claim C9, the failing part. With the default configuration (three retries allowed),
  the first call delivers a chunk at time 1 and the next at time 62; a second call would
  deliver a complete answer. The generator yields the first text, yields the idle-timeout
  error chunk and ends: it does not sleep, does not call the API again and yields no
  finish chunk.
\<close>

theorem idle_timeout_not_retried:
  "stream DEFAULT_LLM_CONFIG silent_then_fine =
     ([Yield (TextChunk ''Hel''), Yield (ErrorChunk IdleTimeoutText)], None)"
  by (simp add: stream_eval silent_then_fine_def DEFAULT_LLM_CONFIG_def)


lemma consume_append:
  "consume t cur pre = (evs, Exhausted cur') \<Longrightarrow>
   consume t cur (pre @ rest) =
     (case consume (if pre = [] then t else arrival (last pre)) cur' rest of
        (evs', r) \<Rightarrow> (evs @ evs', r))"
proof (induction pre arbitrary: t cur evs)
  case Nil
  then show ?case by (simp split: prod.splits)
next
  case (Cons c cs)
  from Cons.prems have nogap: "\<not> arrival c - t > 60"
    by (auto split: if_splits)
  show ?case
  proof (cases "chunk_choices c")
    case Nil
    with Cons.prems nogap have "consume (arrival c) cur cs = (evs, Exhausted cur')" by simp
    from Cons.IH [OF this] Nil nogap show ?thesis by simp
  next
    case (Cons choice others)
    note ch = this
    show ?thesis
    proof (cases "choice_delta choice")
      case None
      with Cons.prems nogap ch have "consume (arrival c) cur cs = (evs, Exhausted cur')" by simp
      from Cons.IH [OF this] None ch nogap show ?thesis by simp
    next
      case (Some d)
      obtain tool_chunks cur1 where tc:
        "(case delta_tool_calls d of None \<Rightarrow> ([], cur) | Some tcs \<Rightarrow> handle_tool_calls cur tcs) =
           (tool_chunks, cur1)"
        by (cases "case delta_tool_calls d of None \<Rightarrow> ([], cur) | Some tcs \<Rightarrow> handle_tool_calls cur tcs")
      obtain evs1 r1 where rec: "consume (arrival c) cur1 cs = (evs1, r1)"
        by (cases "consume (arrival c) cur1 cs")
      from Cons.prems nogap ch Some tc rec have r1: "r1 = Exhausted cur'"
        by (auto simp: Let_def split: option.splits if_splits)
      from Cons.IH [OF rec [unfolded r1]] Cons.prems nogap ch Some tc rec r1 show ?thesis
        by (auto simp: Let_def split: option.splits if_splits prod.splits)
    qed
  qed
qed

text \<open>
  Claim C9, as amended. The idle test runs when a chunk arrives. In any attempt of the
  loop, if the chunks before \<open>chunk\<close> were consumed without a return and \<open>chunk\<close> arrives
  more than 60 seconds after the previous chunk (or after the connection, for the first
  chunk), the generator yields the idle-timeout error chunk and returns: the events of
  the whole call are those of the earlier chunks followed by that error chunk, with no
  retry, whatever the later calls of the API would have done.
\<close>

theorem idle_timeout_ends_stream:
  assumes "int n \<le> max_retries cfg"
    and "api n = Connected started (pre @ chunk # post) fail"
    and "consume started [] pre = (evs, Exhausted cur)"
    and "arrival chunk - (if pre = [] then started else arrival (last pre)) > 60"
  shows "stream_from cfg api n le = (evs @ [Yield (ErrorChunk IdleTimeoutText)], None)"
proof -
  have "consume started [] (pre @ chunk # post) = (evs @ [Yield (ErrorChunk IdleTimeoutText)], Returned)"
    using consume_append [OF assms(3), of "chunk # post"] assms(4) by simp
  then have "try_body (api n) = (evs @ [Yield (ErrorChunk IdleTimeoutText)], BodyReturned)"
    using assms(2) by (simp add: try_body_def)
  then show ?thesis
    using assms(1) by (simp add: stream_from.simps [of cfg api n le])
qed


text \<open>
  At a concrete input: the first chunk arrives 65 seconds after the connection.
\<close>

theorem idle_timeout_ends_stream_witness:
  "stream_from DEFAULT_LLM_CONFIG late_first_chunk 0 NoError =
     ([Yield (ErrorChunk IdleTimeoutText)], None)"
proof -
  have "int 0 \<le> max_retries DEFAULT_LLM_CONFIG"
    by (simp add: DEFAULT_LLM_CONFIG_def)
  moreover have "late_first_chunk 0 =
      Connected 5
        ([] @ \<lparr>arrival = 70,
          chunk_choices = [\<lparr>choice_delta = Some \<lparr>delta_content = Some ''Hi'', delta_tool_calls = None\<rparr>,
                            choice_finish_reason = Some ''stop''\<rparr>],
          chunk_usage = None\<rparr> # []) None"
    by (simp add: late_first_chunk_def)
  moreover have "consume 5 [] [] = ([], Exhausted [])"
    by simp
  ultimately show ?thesis
    using idle_timeout_ends_stream [where n = 0 and api = late_first_chunk and pre = "[]"
        and evs = "[]" and started = 5 and le = NoError] by simp
qed

section \<open>Properties of the doom-loop detection\<close>

lemma scan_parts_take:
  "length recent < DOOM_LOOP_THRESHOLD \<Longrightarrow>
   scan_parts recent ps = take DOOM_LOOP_THRESHOLD (recent @ part_calls ps)"
proof (induction recent ps rule: scan_parts.induct)
  case (2 recent_calls tc ps)
  show ?case
  proof (cases "length recent_calls = 2")
    case True
    then show ?thesis by (simp add: part_calls_def Let_def DOOM_LOOP_THRESHOLD_def)
  next
    case False
    with "2.prems" have "length recent_calls < 2" by (simp add: DOOM_LOOP_THRESHOLD_def)
    with "2.IH" [OF refl] show ?thesis
      by (simp add: part_calls_def Let_def DOOM_LOOP_THRESHOLD_def)
  qed
qed (simp_all add: part_calls_def)

lemma scan_messages_take:
  "length recent < DOOM_LOOP_THRESHOLD \<Longrightarrow>
   scan_messages recent ms = take DOOM_LOOP_THRESHOLD (recent @ session_calls ms)"
proof (induction recent ms rule: scan_messages.induct)
  case (1 recent_calls)
  then show ?case by (simp add: session_calls_def)
next
  case (2 recent_calls ps ms)
  then show ?case by (simp add: session_calls_def)
next
  case (3 recent_calls a ms)
  let ?r = "scan_parts recent_calls (parts a)"
  have r: "?r = take DOOM_LOOP_THRESHOLD (recent_calls @ part_calls (parts a))"
    using "3.prems" by (rule scan_parts_take)
  have sc: "session_calls (AssistantMsg a # ms) = part_calls (parts a) @ session_calls ms"
    by (simp add: session_calls_def)
  show ?case
  proof (cases "length ?r \<ge> DOOM_LOOP_THRESHOLD")
    case True
    then have "scan_messages recent_calls (AssistantMsg a # ms) = ?r"
      by (simp add: Let_def)
    also have "?r = take DOOM_LOOP_THRESHOLD (recent_calls @ part_calls (parts a))"
      by (rule r)
    also have "\<dots> = take DOOM_LOOP_THRESHOLD ((recent_calls @ part_calls (parts a)) @ session_calls ms)"
      using True unfolding r by (subst take_append) simp
    finally show ?thesis by (simp add: sc)
  next
    case False
    then have short: "length (recent_calls @ part_calls (parts a)) < DOOM_LOOP_THRESHOLD"
      unfolding r by (simp add: min_def split: if_splits)
    then have eq: "?r = recent_calls @ part_calls (parts a)"
      unfolding r by simp
    from False have "scan_messages recent_calls (AssistantMsg a # ms) = scan_messages ?r ms"
      by (simp add: Let_def)
    also have "\<dots> = take DOOM_LOOP_THRESHOLD (?r @ session_calls ms)"
      using False "3.IH" [OF refl] by simp
    finally show ?thesis unfolding eq by (simp add: sc)
  qed
qed


text \<open>
  What the code computes: the messages are visited from the last to the first, but the
  parts of each message from the first to the last, and the first three pairs found are
  compared.
\<close>

lemma detect_doom_loop_first_found:
  "detect_doom_loop ms =
     (let recent = take DOOM_LOOP_THRESHOLD (session_calls (rev ms))
      in if length recent < DOOM_LOOP_THRESHOLD then False
         else list_all (\<lambda>call. call = hd recent) recent)"
  using scan_messages_take [of "[]" "rev ms"]
  by (simp add: detect_doom_loop_def DOOM_LOOP_THRESHOLD_def)

text \<open>
  The order in which the keys of an argument dict were inserted does not change its
  serialization, hence not the result of the detection.
\<close>

lemma filter_same_key:
  "distinct (map f zs) \<Longrightarrow> k \<in> set zs \<Longrightarrow> filter (\<lambda>x. f k = f x) zs = [k]"
proof (induction zs)
  case Nil
  then show ?case by simp
next
  case (Cons z zs)
  show ?case
  proof (cases "k = z")
    case True
    with Cons.prems have "\<forall>x \<in> set zs. f z \<noteq> f x" by auto
    then have "filter (\<lambda>x. f z = f x) zs = []" by (simp add: filter_empty_conv)
    with True show ?thesis by simp
  next
    case False
    with Cons.prems have k: "k \<in> set zs" by simp
    from Cons.prems have "f z \<notin> f ` set zs" by simp
    with k have "f k \<noteq> f z" by (metis image_eqI)
    with Cons k show ?thesis by simp
  qed
qed

lemma sort_key_order_of_insertion:
  assumes "mset kvs = mset kvs'" and "distinct (map fst kvs)"
  shows "sort_key fst kvs = sort_key fst kvs'"
proof (rule properties_for_sort_key)
  show "mset (sort_key fst kvs') = mset kvs" using assms(1) by simp
  show "sorted (map fst (sort_key fst kvs'))" by simp
  fix k assume k: "k \<in> set (sort_key fst kvs')"
  have "mset (map fst kvs') = mset (map fst kvs)" using assms(1) by (metis mset_map)
  with assms(2) have d': "distinct (map fst kvs')" by (metis mset_eq_imp_distinct_iff)
  then have "distinct (map fst (sort_key fst kvs'))"
    by (metis distinct_map distinct_sort set_sort)
  from filter_same_key [OF this k]
  have 1: "filter (\<lambda>x. fst k = fst x) (sort_key fst kvs') = [k]" .
  from k assms(1) have "k \<in> set kvs" by (metis mset_eq_setD set_sort)
  from filter_same_key [OF assms(2) this]
  have 2: "filter (\<lambda>x. fst k = fst x) kvs = [k]" .
  from 1 2 show "filter (\<lambda>x. fst k = fst x) (sort_key fst kvs') = filter (\<lambda>x. fst k = fst x) kvs"
    by simp
qed

lemma dumps_sorted_key_order:
  assumes "mset kvs = mset kvs'" and "distinct (map fst kvs)"
  shows "dumps_sorted (JObj kvs) = dumps_sorted (JObj kvs')"
  using sort_key_order_of_insertion [OF assms] by simp

lemmas doom_eval = detect_doom_loop_def spec_doom_loop_def session_calls_def part_calls_def
  DOOM_LOOP_THRESHOLD_def bash_ls_def read_a_def Let_def quote_def escape_char_def

text \<open>
  Claim C2. The detection returns true exactly when the last three tool calls of the
  session are the same pair. The code takes the first three tool calls of the last
  assistant message that has any, so it differs from the claim when one message holds
  more than one tool call. A step that requests \<^verbatim>\<open>read\<close> and then three times the same
  \<^verbatim>\<open>bash\<close> call: the last three calls are identical, \<open>spec_doom_loop\<close> is true, the code
  returns false. A step that requests three times the same \<^verbatim>\<open>bash\<close> call and then
  \<^verbatim>\<open>read\<close>: the last three calls differ, the code returns true.
\<close>

theorem doom_loop_scans_parts_forward:
  "detect_doom_loop
     [UserMessage [TextPart ''list the files'' False],
      AssistantMsg \<lparr>parts = [read_a ''call_1'', bash_ls ''call_2'', bash_ls ''call_3'', bash_ls ''call_4''],
                    finish_reason = Some ''tool_calls'', msg_error = None, tokens = (0, 0, 0)\<rparr>]
     = False \<and>
   spec_doom_loop
     [UserMessage [TextPart ''list the files'' False],
      AssistantMsg \<lparr>parts = [read_a ''call_1'', bash_ls ''call_2'', bash_ls ''call_3'', bash_ls ''call_4''],
                    finish_reason = Some ''tool_calls'', msg_error = None, tokens = (0, 0, 0)\<rparr>]
     = True \<and>
   detect_doom_loop
     [UserMessage [TextPart ''list the files'' False],
      AssistantMsg \<lparr>parts = [bash_ls ''call_1'', bash_ls ''call_2'', bash_ls ''call_3'', read_a ''call_4''],
                    finish_reason = Some ''tool_calls'', msg_error = None, tokens = (0, 0, 0)\<rparr>]
     = True \<and>
   spec_doom_loop
     [UserMessage [TextPart ''list the files'' False],
      AssistantMsg \<lparr>parts = [bash_ls ''call_1'', bash_ls ''call_2'', bash_ls ''call_3'', read_a ''call_4''],
                    finish_reason = Some ''tool_calls'', msg_error = None, tokens = (0, 0, 0)\<rparr>]
     = False"
  by (simp add: doom_eval)

section \<open>Properties of the agent loop\<close>

lemmas run_eval = list_tool_def run_def run_loop.simps process_stream.simps finalize_def
  one_tool_def try_tool_def precheck_patterns_def precheck_key_def format_tool_summary_raises_def
  display_tool_result_raises_def json_truthy_def parse_args_def store_def
  create_assistant_message_def except_clause_def add_tool_part_def add_text_part_def
  update_tool_part_def preapprove_def ask_permission_def sample_env_def sample_world_def
  sample_loads_def bash_tool_def create_default_permission_manager_def DEFAULT_RULES_def
  evaluate_def default_ask_def fnmatch_def bracket_def in_set_def in_items_def pm_match_def Let_def
  detect_doom_loop_def DOOM_LOOP_THRESHOLD_def quote_def escape_char_def

lemma except_clause_not_loop_exit: "fst (except_clause x m w) \<noteq> LoopExited"
  by (cases x) (simp_all add: except_clause_def Let_def)

lemma run_loop_exit:
  assumes "run_loop e w step m = Some (LoopExited, r, w')"
    and "ended_on_tool_calls m w \<or> (step < max_steps e \<and> \<not> aborted w)"
  shows "ended_on_tool_calls r w'"
  using assms
proof (induction e w step m rule: run_loop.induct)
  case (1 e w step assistant_msg)
  show ?case
  proof (cases "step < max_steps e \<and> \<not> aborted w")
    case False
    with "1.prems" show ?thesis
      by (auto simp: run_loop.simps [of e w step assistant_msg])
  next
    case True
    let ?w0 = "w\<lparr>messages := messages w @ [AssistantMsg create_assistant_message]\<rparr>"
    from True "1.prems"(1) obtain res where ps: "process_stream e ?w0 create_assistant_message = Some res"
      by (auto simp: run_loop.simps [of e w step assistant_msg] split: option.splits)
    obtain out m1 w1 where res: "res = (out, m1, w1)" by (cases res)
    show ?thesis
    proof (cases out)
      case (Inl x)
      with True "1.prems"(1) ps res have "except_clause x m1 w1 = (LoopExited, r, w')"
        by (simp add: run_loop.simps [of e w step assistant_msg])
      with except_clause_not_loop_exit [of x m1 w1] show ?thesis by simp
    next
      case (Inr reason)
      let ?m2 = "m1\<lparr>finish_reason := Some reason\<rparr>"
      let ?w2 = "store ?m2 w1"
      have unfold: "run_loop e w step assistant_msg =
          (if reason \<noteq> ''tool_calls'' then Some (Completed, Some ?m2, ?w2)
           else if detect_doom_loop (messages ?w2) then
             (case check (fnmatch_fn e) (permission_manager ?w2) ''doom_loop'' [''*''] of
                (None, pm) \<Rightarrow> run_loop e (?w2\<lparr>permission_manager := pm\<rparr>) (step + 1) (Some ?m2)
              | (Some x, pm) \<Rightarrow>
                  (case x of
                     PermissionRejectedError txt \<Rightarrow>
                       (let m3 = ?m2\<lparr>finish_reason := Some ''stopped''\<rparr>
                        in Some (DoomStopped, Some m3, store m3 (?w2\<lparr>permission_manager := pm\<rparr>)))
                   | _ \<Rightarrow> Some (except_clause x ?m2 (?w2\<lparr>permission_manager := pm\<rparr>))))
           else run_loop e ?w2 (step + 1) (Some ?m2))"
        using True ps res Inr by (simp add: run_loop.simps [of e w step assistant_msg] Let_def)
      show ?thesis
      proof (cases "reason = ''tool_calls''")
        case False
        with unfold "1.prems"(1) show ?thesis by simp
      next
        case tc: True
        have good2: "ended_on_tool_calls (Some ?m2) ?w2"
          using tc by (simp add: ended_on_tool_calls_def store_def)
        show ?thesis
        proof (cases "detect_doom_loop (messages ?w2)")
          case False
          with unfold tc "1.prems"(1) have rl: "run_loop e ?w2 (step + 1) (Some ?m2) = Some (LoopExited, r, w')"
            by simp
          show ?thesis
            by (rule "1.IH"(2) [OF True ps res [symmetric] Inr refl refl refl])
               (use tc False good2 rl in auto)
        next
          case doom: True
          obtain ex pm where ch: "check (fnmatch_fn e) (permission_manager ?w2) ''doom_loop'' [''*''] = (ex, pm)"
            by (cases "check (fnmatch_fn e) (permission_manager ?w2) ''doom_loop'' [''*'']")
          show ?thesis
          proof (cases ex)
            case None
            with unfold tc doom ch "1.prems"(1)
            have rl: "run_loop e (?w2\<lparr>permission_manager := pm\<rparr>) (step + 1) (Some ?m2) = Some (LoopExited, r, w')"
              by (simp del: check.simps)
            have good3: "ended_on_tool_calls (Some ?m2) (?w2\<lparr>permission_manager := pm\<rparr>)"
              using tc by (simp add: ended_on_tool_calls_def store_def)
            show ?thesis
              by (rule "1.IH"(1) [OF True ps res [symmetric] Inr refl refl refl _ doom ch [symmetric] None rl])
                 (use tc good3 in auto)
          next
            case (Some x)
            let ?w3 = "?w2\<lparr>permission_manager := pm\<rparr>"
            from unfold tc doom ch Some "1.prems"(1)
            have "(case x of
                     PermissionRejectedError txt \<Rightarrow>
                       (let m3 = ?m2\<lparr>finish_reason := Some ''stopped''\<rparr>
                        in Some (DoomStopped, Some m3, store m3 ?w3))
                   | _ \<Rightarrow> Some (except_clause x ?m2 ?w3)) = Some (LoopExited, r, w')"
              by (simp del: check.simps)
            with except_clause_not_loop_exit [of x ?m2 ?w3] show ?thesis
              by (cases x) (simp_all add: Let_def)
          qed
        qed
      qed
    qed
  qed
qed

text \<open>
  Claim C4, the failing part. The claim says that a turn that uses up its steps ends with
  the finish reason \<^verbatim>\<open>max-steps-reached\<close>. With \<^verbatim>\<open>max_steps = 1\<close> and a model that requests
  a tool call, the loop ends after one step and returns the message of that step with the
  finish reason \<^verbatim>\<open>tool_calls\<close>, which is what \<^verbatim>\<open>run\<close> stored in it before the loop went on;
  no statement writes \<^verbatim>\<open>max-steps-reached\<close>. With \<^verbatim>\<open>max_steps = 0\<close> no message is produced
  and \<^verbatim>\<open>run\<close> returns \<^verbatim>\<open>None\<close>.
\<close>

theorem max_steps_keeps_tool_calls_reason:
  "exit_and_reason (run (sample_env 1) (sample_world [] [ls_step ''call_1'']) ''list the files'')
     = Some (LoopExited, Some ''tool_calls'') \<and>
   exit_and_reason (run (sample_env 1) (sample_world [] [ls_step ''call_1'']) ''list the files'')
     \<noteq> Some (LoopExited, Some ''max-steps-reached'') \<and>
   exit_and_reason (run (sample_env 0) (sample_world [] [ls_step ''call_1'']) ''list the files'')
     = Some (LoopExited, None)"
  by (simp add: run_eval exit_and_reason_def ls_step_def)

text \<open>
  Claim C4, as amended. Whenever a turn that starts with the abort flag unset and with
  \<open>max_steps > 0\<close> ends at the \<^verbatim>\<open>return\<close> after the loop (the step counter has reached the
  maximum while every step finished with \<^verbatim>\<open>tool_calls\<close>), \<^verbatim>\<open>run\<close> returns the last
  AssistantMessage produced, which is the last message of the session, and its finish
  reason is \<^verbatim>\<open>tool_calls\<close>.
\<close>

theorem max_steps_returns_last_message:
  assumes "run e w user_input = Some (LoopExited, r, w')" and "0 < max_steps e" and "\<not> aborted w"
  shows "\<exists>msg. r = Some msg \<and> finish_reason msg = Some ''tool_calls'' \<and>
               messages w' \<noteq> [] \<and> last (messages w') = AssistantMsg msg"
  using run_loop_exit [OF assms(1) [unfolded run_def]] assms(2,3)
  by (simp add: ended_on_tool_calls_def)

text \<open>
  At a concrete input: one step allowed, the model requests \<^verbatim>\<open>ls\<close>.
\<close>

theorem max_steps_returns_last_message_witness:
  "run (sample_env 1) (sample_world [] [ls_step ''call_1'']) ''list the files'' =
     Some (LoopExited,
           Some \<lparr>parts = [bash_ls ''call_1''], finish_reason = Some ''tool_calls'',
                 msg_error = None, tokens = (0, 0, 0)\<rparr>,
           world_after_ls) \<and>
   (\<exists>msg. Some \<lparr>parts = [bash_ls ''call_1''], finish_reason = Some ''tool_calls'',
                 msg_error = None, tokens = (0, 0, 0)\<rparr> = Some msg \<and>
          finish_reason msg = Some ''tool_calls'' \<and> messages world_after_ls \<noteq> [] \<and>
          last (messages world_after_ls) = AssistantMsg msg)"
proof -
  have r: "run (sample_env 1) (sample_world [] [ls_step ''call_1'']) ''list the files'' =
     Some (LoopExited,
           Some \<lparr>parts = [bash_ls ''call_1''], finish_reason = Some ''tool_calls'',
                 msg_error = None, tokens = (0, 0, 0)\<rparr>,
           world_after_ls)"
    by (simp add: run_eval ls_step_def world_after_ls_def bash_ls_def)
  have "0 < max_steps (sample_env 1)" and "\<not> aborted (sample_world [] [ls_step ''call_1''])"
    by (simp_all add: sample_env_def sample_world_def)
  from max_steps_returns_last_message [OF r this] r show ?thesis by blast
qed

lemma update_tool_first:
  assumes "\<forall>p \<in> set pre. (case p of ToolPart t \<Rightarrow> tc_id t \<noteq> tc_id tc | _ \<Rightarrow> True)"
  shows "update_tool (pre @ ToolPart tc # post) (tc_id tc) st out err =
           pre @ ToolPart (tc\<lparr>tc_state := st, tc_output := out, tc_error := err\<rparr>) # post"
  using assms
proof (induction pre)
  case Nil
  then show ?case by simp
next
  case (Cons p pre)
  then show ?case by (cases p) auto
qed

text \<open>
  Claim C10. For a tool call whose name is not in the registry, the body of the loop of
  \<^verbatim>\<open>_execute_tools\<close> raises nothing and leaves the state as it is; the tool call of the
  message with that id gets the state \<open>ERROR\<close> and the error \<^verbatim>\<open>Unknown tool: <name>\<close> (third
  part: the first tool part with the id, when the call is in the message); and
  \<^verbatim>\<open>_execute_tools\<close> goes on with the remaining tool calls exactly as it would have run them
  on the updated message, so the unknown name by itself does not end the turn.
\<close>

theorem unknown_tool_recorded_and_skipped:
  assumes "tools e (tool_name tc) = None"
  shows "one_tool e w m call_id tc =
           Some (None,
                 update_tool_part m call_id ERROR None (Some (''Unknown tool: '' @ tool_name tc)), w) \<and>
         execute_tools e w m ((call_id, tc) # rest) =
           execute_tools e w
             (update_tool_part m call_id ERROR None (Some (''Unknown tool: '' @ tool_name tc))) rest \<and>
         (\<forall>pre post.
            parts m = pre @ ToolPart tc # post \<and> tc_id tc = call_id \<and>
            (\<forall>p \<in> set pre. (case p of ToolPart t \<Rightarrow> tc_id t \<noteq> call_id | _ \<Rightarrow> True)) \<longrightarrow>
            parts (update_tool_part m call_id ERROR None (Some (''Unknown tool: '' @ tool_name tc))) =
              pre @ ToolPart (tc\<lparr>tc_state := ERROR, tc_output := None,
                                tc_error := Some (''Unknown tool: '' @ tool_name tc)\<rparr>) # post)"
proof (intro conjI allI impI)
  show one: "one_tool e w m call_id tc =
           Some (None,
                 update_tool_part m call_id ERROR None (Some (''Unknown tool: '' @ tool_name tc)), w)"
    using assms by (simp add: one_tool_def)
  then show "execute_tools e w m ((call_id, tc) # rest) =
           execute_tools e w
             (update_tool_part m call_id ERROR None (Some (''Unknown tool: '' @ tool_name tc))) rest"
    by simp
next
  fix pre post
  assume h: "parts m = pre @ ToolPart tc # post \<and> tc_id tc = call_id \<and>
            (\<forall>p \<in> set pre. (case p of ToolPart t \<Rightarrow> tc_id t \<noteq> call_id | _ \<Rightarrow> True))"
  then have cid: "call_id = tc_id tc" by simp
  from h have "\<forall>p \<in> set pre. (case p of ToolPart t \<Rightarrow> tc_id t \<noteq> tc_id tc | _ \<Rightarrow> True)"
    unfolding cid by blast
  from update_tool_first [OF this] h
  show "parts (update_tool_part m call_id ERROR None (Some (''Unknown tool: '' @ tool_name tc))) =
              pre @ ToolPart (tc\<lparr>tc_state := ERROR, tc_output := None,
                                tc_error := Some (''Unknown tool: '' @ tool_name tc)\<rparr>) # post"
    by (auto simp: update_tool_part_def)
qed

text \<open>
  At a concrete input: a step requests the unregistered \<^verbatim>\<open>grep\<close> and then \<^verbatim>\<open>bash\<close>; the first
  call is marked as an error, the second is executed.
\<close>

theorem unknown_tool_recorded_and_skipped_witness:
  "execute_tools (sample_env 1) (sample_world [] [])
     \<lparr>parts = [ToolPart grep_call, ToolPart ls_call], finish_reason = None, msg_error = None,
      tokens = (0, 0, 0)\<rparr>
     [(''call_1'', grep_call), (''call_2'', ls_call)] =
   Some (None,
         \<lparr>parts = [ToolPart (grep_call\<lparr>tc_state := ERROR, tc_error := Some ''Unknown tool: grep''\<rparr>),
                   ToolPart (ls_call\<lparr>tc_state := COMPLETED, tc_output := Some ''a.txt''\<rparr>)],
          finish_reason = None, msg_error = None, tokens = (0, 0, 0)\<rparr>,
         (sample_world [] [])\<lparr>executed := [(''bash'', JObj [(''command'', JStr ''ls'')])]\<rparr>)"
proof -
  let ?m = "\<lparr>parts = [ToolPart grep_call, ToolPart ls_call], finish_reason = None, msg_error = None,
      tokens = (0, 0, 0)\<rparr>"
  have unknown: "tools (sample_env 1) (tool_name grep_call) = None"
    by (simp add: sample_env_def grep_call_def)
  from unknown_tool_recorded_and_skipped [OF unknown, of "sample_world [] []" ?m "''call_1''"
      "[(''call_2'', ls_call)]"]
  have "execute_tools (sample_env 1) (sample_world [] []) ?m
          [(''call_1'', grep_call), (''call_2'', ls_call)] =
        execute_tools (sample_env 1) (sample_world [] [])
          (update_tool_part ?m ''call_1'' ERROR None (Some (''Unknown tool: '' @ tool_name grep_call)))
          [(''call_2'', ls_call)]"
    by blast
  then show ?thesis
    by (simp add: run_eval grep_call_def ls_call_def)
qed














end
